theory Spec2Isabelle
  imports Main "HOL-Library.Word" "HOL-Library.Sublist"
begin

section \<open>Python strings\<close>

text \<open>
  File names, paths and messages are \<open>string\<close>s. The source inspects them with
  \<open>str.lower\<close>, \<open>str.endswith\<close>, \<open>str.startswith\<close> and \<open>in\<close>. Only the ASCII
  letters are folded by \<open>lower\<close> here: no other character lowers to one of
  \<open>.\<close>, \<open>p\<close>, \<open>d\<close>, \<open>f\<close>, so the suffix tests of the source read the same.
\<close>

definition lower_char :: "char \<Rightarrow> char" where
  "lower_char c =
     (let n = (of_char c :: nat) in if 65 \<le> n \<and> n \<le> 90 then char_of (n + 32) else c)"

definition lower :: "string \<Rightarrow> string" where
  "lower s = map lower_char s"

definition endswith :: "string \<Rightarrow> string \<Rightarrow> bool" where
  "endswith s suf =
     (length suf \<le> length s \<and> drop (length s - length suf) s = suf)"

definition startswith :: "string \<Rightarrow> string \<Rightarrow> bool" where
  "startswith s pre = (take (length pre) s = pre)"

fun contains :: "string \<Rightarrow> string \<Rightarrow> bool" where
  "contains sub [] = (sub = [])"
| "contains sub (c # cs) = (startswith (c # cs) sub \<or> contains sub cs)"

section \<open>Random identifiers\<close>

text \<open>
  \<open>uuid.uuid4()\<close> is a 128-bit value; \<open>str\<close> prints it as 32 lower-case
  hexadecimal digits (\<open>'%032x' % self.int\<close>) in groups of 8-4-4-4-12 joined by
  hyphens.
\<close>

type_synonym uuid = "128 word"

definition hex_digit :: "nat \<Rightarrow> char" where
  "hex_digit d = ''0123456789abcdef'' ! d"

fun hex_digits :: "nat \<Rightarrow> nat \<Rightarrow> string" where
  "hex_digits 0 n = []"
| "hex_digits (Suc k) n = hex_digits k (n div 16) @ [hex_digit (n mod 16)]"

definition uuid_hex :: "uuid \<Rightarrow> string" where
  "uuid_hex u = hex_digits 32 (unat u)"

definition uuid_str :: "uuid \<Rightarrow> string" where
  "uuid_str u =
     (let h = uuid_hex u
      in take 8 h @ ''-'' @ take 4 (drop 8 h) @ ''-'' @ take 4 (drop 12 h) @ ''-''
         @ take 4 (drop 16 h) @ ''-'' @ drop 20 h)"

section \<open>Paths\<close>

text \<open>
  \<open>os.path.join(a, b)\<close> for two components (\<open>posixpath.join\<close>): an absolute \<open>b\<close>
  replaces \<open>a\<close>; otherwise \<open>b\<close> is appended, after a separator unless \<open>a\<close> is empty or
  already ends with one.
\<close>

definition os_path_join :: "string \<Rightarrow> string \<Rightarrow> string" where
  "os_path_join a b =
     (if startswith b ''/'' then b
      else if a = [] \<or> endswith a ''/'' then a @ b
      else a @ ''/'' @ b)"

text \<open>
  The name under which a path is listed in directory \<open>d\<close>, when the path is a direct
  child of \<open>d\<close>: the path is \<open>os_path_join d name\<close> for a non-empty name without a
  separator.
\<close>

definition child_name :: "string \<Rightarrow> string \<Rightarrow> string option" where
  "child_name d p =
     (let pre = os_path_join d [] in
      if startswith p pre then
        (let n = drop (length pre) p
         in if n = [] \<or> CHR ''/'' \<in> set n then None else Some n)
      else None)"

section \<open>The process and its scratch directory\<close>

text \<open>
  Exceptions raised by the operating system and by the processing libraries; all of
  them are subclasses of \<open>Exception\<close>. Each carries its message (\<open>str(e)\<close>).
\<close>

datatype err =
    PasswordError string
  | PdfError string
  | FileNotFoundError string
  | PermissionError string
  | IsADirectoryError string
  | OtherError string

fun str_err :: "err \<Rightarrow> string" where
  "str_err (PasswordError m) = m"
| "str_err (PdfError m) = m"
| "str_err (FileNotFoundError m) = m"
| "str_err (PermissionError m) = m"
| "str_err (IsADirectoryError m) = m"
| "str_err (OtherError m) = m"

text \<open>
  An entry of the file system. Times are microseconds on the clock that
  \<open>datetime.now()\<close> and \<open>datetime.fromtimestamp(os.path.getctime(p))\<close> both read.
  A regular file that is held open elsewhere, or owned by someone else in a sticky
  directory, cannot be unlinked: \<open>removable\<close> is \<open>False\<close> for it.
\<close>

datatype node =
    RegularFile (ctime: int) (payload: string) (removable: bool)
  | Directory (ctime: int)

datatype level = INFO | ERROR

text \<open>
  The state the module works on: the global \<open>TEMP_DIR\<close> (chosen once by
  \<open>tempfile.mkdtemp()\<close>), whether that directory is still there, the entries of the
  file system by absolute path (the order of the list is the order in which
  \<open>os.listdir\<close> reports them), the source of random identifiers with the number of
  identifiers drawn so far, the clock, and the logger's records. Two fields are for
  observation only: \<open>issued\<close> lists the scratch paths handed out by
  \<open>create_temp_file\<close>, \<open>sleeps\<close> the seconds passed to \<open>asyncio.sleep\<close>.
\<close>

record world =
  TEMP_DIR :: string
  dir_ok :: bool
  files :: "(string \<times> node) list"
  rng :: "nat \<Rightarrow> uuid"
  draws :: nat
  now :: int
  log_records :: "(level \<times> string) list"
  issued :: "string list"
  sleeps :: "nat list"

definition MAX_FILE_SIZE :: int where
  "MAX_FILE_SIZE = 50 * 1024 * 1024"

definition CLEANUP_INTERVAL :: nat where
  "CLEANUP_INTERVAL = 600"

definition logger_info :: "string \<Rightarrow> world \<Rightarrow> world" where
  "logger_info m w = w\<lparr>log_records := log_records w @ [(INFO, m)]\<rparr>"

definition logger_error :: "string \<Rightarrow> world \<Rightarrow> world" where
  "logger_error m w = w\<lparr>log_records := log_records w @ [(ERROR, m)]\<rparr>"

subsection \<open>The file-system calls of the source\<close>

text \<open>
  Only the scratch directory is modelled: a path names something when the directory is
  there, the path is a direct child of it and the path has an entry.
\<close>

definition stat :: "world \<Rightarrow> string \<Rightarrow> node option" where
  "stat w p =
     (if dir_ok w \<and> child_name (TEMP_DIR w) p \<noteq> None then map_of (files w) p else None)"

definition os_path_exists :: "world \<Rightarrow> string \<Rightarrow> bool" where
  "os_path_exists w p = (stat w p \<noteq> None)"

definition os_path_isfile :: "world \<Rightarrow> string \<Rightarrow> bool" where
  "os_path_isfile w p =
     (case stat w p of Some (RegularFile t d r) \<Rightarrow> True | _ \<Rightarrow> False)"

definition os_path_getctime :: "world \<Rightarrow> string \<Rightarrow> err + int" where
  "os_path_getctime w p =
     (case stat w p of
        Some (RegularFile t d r) \<Rightarrow> Inr t
      | Some (Directory t) \<Rightarrow> Inr t
      | None \<Rightarrow> Inl (FileNotFoundError p))"

definition os_listdir :: "world \<Rightarrow> string \<Rightarrow> err + string list" where
  "os_listdir w d =
     (if dir_ok w \<and> d = TEMP_DIR w
      then Inr (List.map_filter (child_name d) (map fst (files w)))
      else Inl (FileNotFoundError d))"

definition os_remove :: "string \<Rightarrow> world \<Rightarrow> err + world" where
  "os_remove p w =
     (case stat w p of
        None \<Rightarrow> Inl (FileNotFoundError p)
      | Some (Directory t) \<Rightarrow> Inl (IsADirectoryError p)
      | Some (RegularFile t d r) \<Rightarrow>
          if r then Inr (w\<lparr>files := filter (\<lambda>e. fst e \<noteq> p) (files w)\<rparr>)
          else Inl (PermissionError p))"

text \<open>
  \<open>with open(p, "wb") as f: f.write(data)\<close>: creates the file, stamped with the
  current time, or truncates and rewrites the one that is there.
\<close>

fun put_entry :: "string \<Rightarrow> node \<Rightarrow> (string \<times> node) list \<Rightarrow> (string \<times> node) list" where
  "put_entry p n [] = [(p, n)]"
| "put_entry p n (e # es) = (if fst e = p then (p, n) # es else e # put_entry p n es)"

definition write_file :: "string \<Rightarrow> string \<Rightarrow> world \<Rightarrow> err + world" where
  "write_file p data w =
     (if \<not> dir_ok w \<or> child_name (TEMP_DIR w) p = None then Inl (FileNotFoundError p)
      else case map_of (files w) p of
          Some (Directory t) \<Rightarrow> Inl (IsADirectoryError p)
        | Some (RegularFile t d r) \<Rightarrow>
            Inr (w\<lparr>files := put_entry p (RegularFile (now w) data r) (files w)\<rparr>)
        | None \<Rightarrow>
            Inr (w\<lparr>files := put_entry p (RegularFile (now w) data True) (files w)\<rparr>))"

section \<open>Utility functions of the module\<close>

text \<open>The uploaded file as the handlers read it: name, declared size, content.\<close>

record upload =
  filename :: string
  file_size :: int
  file_body :: string

definition validate_file_size :: "int \<Rightarrow> bool" where
  "validate_file_size n = (n \<le> MAX_FILE_SIZE)"

definition validate_pdf_file :: "upload \<Rightarrow> bool" where
  "validate_pdf_file file =
     (if \<not> endswith (lower (filename file)) ''.pdf'' then False else True)"

definition uuid4 :: "world \<Rightarrow> uuid \<times> world" where
  "uuid4 w = (rng w (draws w), w\<lparr>draws := Suc (draws w)\<rparr>)"

definition create_temp_file :: "string \<Rightarrow> world \<Rightarrow> string \<times> world" where
  "create_temp_file extension w =
     (let (unique_id, w1) = uuid4 w;
          p = os_path_join (TEMP_DIR w1) (uuid_str unique_id @ extension)
      in (p, w1\<lparr>issued := issued w1 @ [p]\<rparr>))"

section \<open>Releasing scratch paths\<close>

text \<open>
  The release step, as every handler writes it:
  \<^verbatim>\<open>if os.path.exists(path):
      try: os.remove(path)
      except: pass\<close>
  The first component of the result is the exception that leaves the step, if any.
\<close>

definition release :: "string \<Rightarrow> world \<Rightarrow> err option \<times> world" where
  "release p w =
     (if os_path_exists w p then
        (case os_remove p w of
           Inl e \<Rightarrow> (None, w)
         | Inr w1 \<Rightarrow> (None, w1))
      else (None, w))"

text \<open>\<open>for path in paths: <release path>\<close>\<close>

fun release_all :: "string list \<Rightarrow> world \<Rightarrow> err option \<times> world" where
  "release_all [] w = (None, w)"
| "release_all (p # ps) w =
     (case release p w of
        (Some e, w1) \<Rightarrow> (Some e, w1)
      | (None, w1) \<Rightarrow> release_all ps w1)"

section \<open>Request handlers\<close>

text \<open>
  A handler returns a \<open>FileResponse\<close> or raises. Inside a \<open>try\<close> block two kinds of
  exception occur: an \<open>HTTPException\<close> the handler raises itself, and an error of the
  operating system or of a processing library.
\<close>

datatype response = FileResponse (path: string) (download_name: string) (media_type: string)

datatype thrown = ThrownHTTP nat string | ThrownErr err

text \<open>
  The processing libraries (pikepdf, PyMuPDF) and the \<open>adobe_service\<close> module are
  parameters. A call reads what it likes and may write the output path; it returns or
  raises. Nothing more is assumed of it.
\<close>

datatype 'r call = Call (writes: "string option") (returns: "err + 'r")

definition library_call :: "'r call \<Rightarrow> string \<Rightarrow> world \<Rightarrow> (err + 'r) \<times> world" where
  "library_call c output_path w =
     (case writes c of
        None \<Rightarrow> (returns c, w)
      | Some data \<Rightarrow>
          (case write_file output_path data w of
             Inl e \<Rightarrow> (returns c, w)
           | Inr w1 \<Rightarrow> (returns c, w1)))"

record services =
  pikepdf_unlock :: "world \<Rightarrow> string \<Rightarrow> string \<Rightarrow> string \<Rightarrow> unit call"
  pikepdf_is_encrypted :: "world \<Rightarrow> string \<Rightarrow> err + bool"
  pikepdf_lock :: "world \<Rightarrow> string \<Rightarrow> string \<Rightarrow> string \<Rightarrow> unit call"
  fitz_remove_links :: "world \<Rightarrow> string \<Rightarrow> string \<Rightarrow> unit call"
  convert_pdf_to_word :: "world \<Rightarrow> string \<Rightarrow> string \<Rightarrow> bool call"
  convert_pdf_to_excel :: "world \<Rightarrow> string \<Rightarrow> string \<Rightarrow> bool call"
  compress_pdf :: "world \<Rightarrow> string \<Rightarrow> string \<Rightarrow> string \<Rightarrow> bool call"
  optimize_pdf_for_web :: "world \<Rightarrow> string \<Rightarrow> string \<Rightarrow> bool call"
  extract_text_with_ocr :: "world \<Rightarrow> string \<Rightarrow> err + string option"

text \<open>\<open>with open(input_path, "wb") as buffer: shutil.copyfileobj(file.file, buffer)\<close>\<close>

definition save_upload :: "string \<Rightarrow> upload \<Rightarrow> world \<Rightarrow> err + world" where
  "save_upload input_path file w = write_file input_path (file_body file) w"

text \<open>
  The \<open>finally\<close> block shared by the handlers:
  \<^verbatim>\<open>for path in [input_path, output_path]: <release path>\<close>
  A local variable that was never assigned is \<open>None\<close> here; building the list reads
  both variables before the loop starts, and reading an unassigned one raises
  \<open>UnboundLocalError\<close>. The loop itself raises nothing (\<open>release_all_None\<close> below).
\<close>

datatype exn = HTTPException nat string | UnboundLocalError string

definition finally_cleanup ::
  "string option \<Rightarrow> string option \<Rightarrow> world \<Rightarrow> exn option \<times> world" where
  "finally_cleanup input_path output_path w =
     (case input_path of
        None \<Rightarrow> (Some (UnboundLocalError ''input_path''), w)
      | Some i \<Rightarrow>
          (case output_path of
             None \<Rightarrow> (Some (UnboundLocalError ''output_path''), w)
           | Some out \<Rightarrow> (None, snd (release_all [i, out] w))))"

text \<open>
  \<open>try: ... finally: ...\<close>: the block's own exception replaces the outcome of the
  \<open>try\<close> statement; otherwise the outcome stands.
\<close>

definition try_finally ::
  "(exn + response) \<times> world \<Rightarrow> (world \<Rightarrow> exn option \<times> world) \<Rightarrow> (exn + response) \<times> world" where
  "try_finally rw fin =
     (case rw of (r, w) \<Rightarrow>
        (case fin w of
           (Some e, w1) \<Rightarrow> (Inl e, w1)
         | (None, w1) \<Rightarrow> (r, w1)))"

definition invalid_file_type :: exn where
  "invalid_file_type = HTTPException 400 ''Invalid file type. Only PDF files are accepted.''"

definition file_too_large :: exn where
  \<comment> \<open>\<open>MAX_FILE_SIZE // (1024*1024)\<close> is 50\<close>
  "file_too_large = HTTPException 400 ''File too large. Maximum size is 50MB.''"

text \<open>
  \<open>s.replace(old, new)\<close> for a non-empty \<open>old\<close>: every occurrence, left to right,
  without overlap.
\<close>

function replace :: "string \<Rightarrow> string \<Rightarrow> string \<Rightarrow> string" where
  "replace old new [] = []"
| "replace old new (c # cs) =
     (if old \<noteq> [] \<and> startswith (c # cs) old
      then new @ replace old new (drop (length old - 1) cs)
      else c # replace old new cs)"
  by pat_completeness auto
termination
  by (relation "measure (\<lambda>(old, new, s). length s)") auto

text \<open>
  \<^verbatim>\<open>output_filename = file.filename.replace('.pdf', ext)
  if not output_filename.endswith(ext): output_filename += ext\<close>
\<close>

definition renamed :: "string \<Rightarrow> string \<Rightarrow> string" where
  "renamed name ext =
     (let output_filename = replace ''.pdf'' ext name
      in if \<not> endswith output_filename ext then output_filename @ ext else output_filename)"

subsection \<open>\<open>/unlock-pdf\<close>\<close>

definition unlock_try ::
  "services \<Rightarrow> upload \<Rightarrow> string \<Rightarrow> string \<Rightarrow> string \<Rightarrow> world \<Rightarrow> (thrown + response) \<times> world" where
  "unlock_try sv file password input_path output_path w =
     (case save_upload input_path file w of
        Inl e \<Rightarrow> (Inl (ThrownErr e), w)
      | Inr w1 \<Rightarrow>
          (case library_call (pikepdf_unlock sv w1 input_path password output_path) output_path w1 of
             (Inl e, w2) \<Rightarrow> (Inl (ThrownErr e), w2)
           | (Inr u, w2) \<Rightarrow>
               (let output_filename = ''unlocked_'' @ filename file;
                    w3 = logger_info (''Successfully unlocked '' @ filename file) w2
                in (Inr (FileResponse output_path output_filename ''application/pdf''), w3))))"

text \<open>
  The \<open>except\<close> clauses of \<open>unlock_pdf_legacy\<close>, in the order of the source:
  \<open>PasswordError\<close>, \<open>PdfError\<close>, \<open>Exception\<close>. The last one would also catch an
  \<open>HTTPException\<close>; this \<open>try\<close> block raises none (see \<open>unlock_try\<close>).
\<close>

definition unlock_except :: "thrown \<Rightarrow> world \<Rightarrow> exn \<times> world" where
  "unlock_except t w =
     (case t of
        ThrownErr (PasswordError m) \<Rightarrow>
          (HTTPException 400 ''Incorrect password for this PDF.'', w)
      | ThrownErr (PdfError m) \<Rightarrow>
          (if contains ''not encrypted'' (lower m)
           then (HTTPException 400 ''This PDF is not encrypted.'', w)
           else (HTTPException 400 (''PDF error: '' @ m), w))
      | ThrownErr e \<Rightarrow>
          (HTTPException 500 (''Failed to unlock PDF: '' @ str_err e),
           logger_error (''Error unlocking PDF: '' @ str_err e) w)
      | ThrownHTTP c d \<Rightarrow>
          (HTTPException 500 (''Failed to unlock PDF: '' @ d),
           logger_error (''Error unlocking PDF: '' @ d) w))"

text \<open>
  \<open>except HTTPException: raise\<close> followed by \<open>except Exception as e\<close>, which logs
  and raises status 500; the two messages differ from handler to handler.
\<close>

definition reraise_or_500 :: "string \<Rightarrow> string \<Rightarrow> thrown \<Rightarrow> world \<Rightarrow> exn \<times> world" where
  "reraise_or_500 log_prefix detail_prefix t w =
     (case t of
        ThrownHTTP c d \<Rightarrow> (HTTPException c d, w)
      | ThrownErr e \<Rightarrow>
          (HTTPException 500 (detail_prefix @ str_err e),
           logger_error (log_prefix @ str_err e) w))"

definition catch :: "(thrown \<Rightarrow> world \<Rightarrow> exn \<times> world) \<Rightarrow> (thrown + response) \<times> world
    \<Rightarrow> (exn + response) \<times> world" where
  "catch handler rw =
     (case rw of
        (Inl t, w) \<Rightarrow> (case handler t w of (x, w1) \<Rightarrow> (Inl x, w1))
      | (Inr r, w) \<Rightarrow> (Inr r, w))"

definition unlock_pdf_legacy ::
  "services \<Rightarrow> upload \<Rightarrow> string \<Rightarrow> world \<Rightarrow> (exn + response) \<times> world" where
  "unlock_pdf_legacy sv file password w =
     (if \<not> validate_pdf_file file then (Inl invalid_file_type, w)
      else if \<not> validate_file_size (file_size file) then (Inl file_too_large, w)
      else
        (let (input_path, w1) = create_temp_file ''.pdf'' w;
             (output_path, w2) = create_temp_file ''.pdf'' w1
         in try_finally
              (catch unlock_except (unlock_try sv file password input_path output_path w2))
              (finally_cleanup (Some input_path) (Some output_path))))"

subsection \<open>\<open>/lock-pdf\<close>\<close>

definition lock_try ::
  "services \<Rightarrow> upload \<Rightarrow> string \<Rightarrow> string \<Rightarrow> string \<Rightarrow> world \<Rightarrow> (thrown + response) \<times> world" where
  "lock_try sv file password input_path output_path w =
     (case save_upload input_path file w of
        Inl e \<Rightarrow> (Inl (ThrownErr e), w)
      | Inr w1 \<Rightarrow>
          (case pikepdf_is_encrypted sv w1 input_path of
             Inl (PasswordError m) \<Rightarrow> (Inl (ThrownHTTP 400 ''PDF is already encrypted.''), w1)
           | Inl e \<Rightarrow> (Inl (ThrownErr e), w1)
           | Inr True \<Rightarrow> (Inl (ThrownHTTP 400 ''PDF is already encrypted.''), w1)
           | Inr False \<Rightarrow>
               (case library_call (pikepdf_lock sv w1 input_path password output_path) output_path w1 of
                  (Inl e, w2) \<Rightarrow> (Inl (ThrownErr e), w2)
                | (Inr u, w2) \<Rightarrow>
                    (let output_filename = ''locked_'' @ filename file;
                         w3 = logger_info (''Successfully locked '' @ filename file) w2
                     in (Inr (FileResponse output_path output_filename ''application/pdf''), w3)))))"

definition lock_pdf_legacy ::
  "services \<Rightarrow> upload \<Rightarrow> string \<Rightarrow> world \<Rightarrow> (exn + response) \<times> world" where
  "lock_pdf_legacy sv file password w =
     (if \<not> validate_pdf_file file then (Inl invalid_file_type, w)
      else if \<not> validate_file_size (file_size file) then (Inl file_too_large, w)
      else
        (let (input_path, w1) = create_temp_file ''.pdf'' w;
             (output_path, w2) = create_temp_file ''.pdf'' w1
         in try_finally
              (catch (reraise_or_500 ''Error locking PDF: '' ''Failed to lock PDF: '')
                 (lock_try sv file password input_path output_path w2))
              (finally_cleanup (Some input_path) (Some output_path))))"

subsection \<open>\<open>/remove-pdf-links\<close>\<close>

text \<open>
  The PyMuPDF calls between \<open>fitz.open\<close> and \<open>doc.close()\<close> are one library call;
  \<open>doc.save(output_path)\<close> is its write. This handler has a single clause,
  \<open>except Exception\<close>.
\<close>

definition remove_links_try ::
  "services \<Rightarrow> upload \<Rightarrow> string \<Rightarrow> string \<Rightarrow> world \<Rightarrow> (thrown + response) \<times> world" where
  "remove_links_try sv file input_path output_path w =
     (case save_upload input_path file w of
        Inl e \<Rightarrow> (Inl (ThrownErr e), w)
      | Inr w1 \<Rightarrow>
          (case library_call (fitz_remove_links sv w1 input_path output_path) output_path w1 of
             (Inl e, w2) \<Rightarrow> (Inl (ThrownErr e), w2)
           | (Inr u, w2) \<Rightarrow>
               (let output_filename = ''links_removed_'' @ filename file;
                    w3 = logger_info (''Successfully removed links from '' @ filename file) w2
                in (Inr (FileResponse output_path output_filename ''application/pdf''), w3))))"

definition remove_links_except :: "thrown \<Rightarrow> world \<Rightarrow> exn \<times> world" where
  "remove_links_except t w =
     (let m = (case t of ThrownErr e \<Rightarrow> str_err e | ThrownHTTP c d \<Rightarrow> d)
      in (HTTPException 500 (''Failed to remove links: '' @ m),
          logger_error (''Error removing PDF links: '' @ m) w))"

definition remove_pdf_links_legacy ::
  "services \<Rightarrow> upload \<Rightarrow> world \<Rightarrow> (exn + response) \<times> world" where
  "remove_pdf_links_legacy sv file w =
     (if \<not> validate_pdf_file file then (Inl invalid_file_type, w)
      else if \<not> validate_file_size (file_size file) then (Inl file_too_large, w)
      else
        (let (input_path, w1) = create_temp_file ''.pdf'' w;
             (output_path, w2) = create_temp_file ''.pdf'' w1
         in try_finally
              (catch remove_links_except (remove_links_try sv file input_path output_path w2))
              (finally_cleanup (Some input_path) (Some output_path))))"

subsection \<open>The Adobe endpoints with two scratch paths\<close>

text \<open>
  \<open>adobe_convert_pdf_to_word\<close>, \<open>adobe_convert_pdf_to_excel\<close>, \<open>adobe_compress_pdf\<close>
  and \<open>adobe_optimize_pdf\<close> share one \<open>try\<close> block up to the service they await, the
  name and media type of the download, and their messages:
  \<^verbatim>\<open>success = await adobe_service.<operation>(input_path, output_path, ...)
  if success: ...; return FileResponse(path=output_path, ...)
  else: raise HTTPException(status_code=500, detail=...)\<close>
\<close>

definition adobe_try ::
  "(world \<Rightarrow> string \<Rightarrow> string \<Rightarrow> bool call) \<Rightarrow> string \<Rightarrow> string \<Rightarrow> string \<Rightarrow> string
     \<Rightarrow> upload \<Rightarrow> string \<Rightarrow> string \<Rightarrow> world \<Rightarrow> (thrown + response) \<times> world" where
  "adobe_try operation output_filename mime success_msg failure_detail
       file input_path output_path w =
     (case save_upload input_path file w of
        Inl e \<Rightarrow> (Inl (ThrownErr e), w)
      | Inr w1 \<Rightarrow>
          (case library_call (operation w1 input_path output_path) output_path w1 of
             (Inl e, w2) \<Rightarrow> (Inl (ThrownErr e), w2)
           | (Inr success, w2) \<Rightarrow>
               if success then
                 (Inr (FileResponse output_path output_filename mime), logger_info success_msg w2)
               else (Inl (ThrownHTTP 500 failure_detail), w2)))"

definition docx_mime :: string where
  "docx_mime = ''application/vnd.openxmlformats-officedocument.wordprocessingml.document''"

definition xlsx_mime :: string where
  "xlsx_mime = ''application/vnd.openxmlformats-officedocument.spreadsheetml.sheet''"

definition adobe_convert_pdf_to_word ::
  "services \<Rightarrow> upload \<Rightarrow> world \<Rightarrow> (exn + response) \<times> world" where
  "adobe_convert_pdf_to_word sv file w =
     (if \<not> validate_pdf_file file then (Inl invalid_file_type, w)
      else if \<not> validate_file_size (file_size file) then (Inl file_too_large, w)
      else
        (let (input_path, w1) = create_temp_file ''.pdf'' w;
             (output_path, w2) = create_temp_file ''.docx'' w1
         in try_finally
              (catch (reraise_or_500 ''Error converting PDF to Word with Adobe: '' ''Conversion failed: '')
                 (adobe_try (convert_pdf_to_word sv) (renamed (filename file) ''.docx'') docx_mime
                    (''Successfully converted '' @ filename file @ '' to Word using Adobe'')
                    ''Adobe conversion failed. Please try again.''
                    file input_path output_path w2))
              (finally_cleanup (Some input_path) (Some output_path))))"

definition adobe_convert_pdf_to_excel ::
  "services \<Rightarrow> upload \<Rightarrow> world \<Rightarrow> (exn + response) \<times> world" where
  "adobe_convert_pdf_to_excel sv file w =
     (if \<not> validate_pdf_file file then (Inl invalid_file_type, w)
      else if \<not> validate_file_size (file_size file) then (Inl file_too_large, w)
      else
        (let (input_path, w1) = create_temp_file ''.pdf'' w;
             (output_path, w2) = create_temp_file ''.xlsx'' w1
         in try_finally
              (catch (reraise_or_500 ''Error converting PDF to Excel with Adobe: '' ''Conversion failed: '')
                 (adobe_try (convert_pdf_to_excel sv) (renamed (filename file) ''.xlsx'') xlsx_mime
                    (''Successfully converted '' @ filename file @ '' to Excel using Adobe'')
                    ''Adobe conversion failed. Please try again.''
                    file input_path output_path w2))
              (finally_cleanup (Some input_path) (Some output_path))))"

definition adobe_compress_pdf ::
  "services \<Rightarrow> upload \<Rightarrow> string \<Rightarrow> world \<Rightarrow> (exn + response) \<times> world" where
  "adobe_compress_pdf sv file compression_level w =
     (if \<not> validate_pdf_file file then (Inl invalid_file_type, w)
      else if \<not> validate_file_size (file_size file) then (Inl file_too_large, w)
      else if compression_level \<notin> set [''low'', ''medium'', ''high''] then
        (Inl (HTTPException 400 ''Invalid compression level. Use: low, medium, or high.''), w)
      else
        (let (input_path, w1) = create_temp_file ''.pdf'' w;
             (output_path, w2) = create_temp_file ''.pdf'' w1
         in try_finally
              (catch (reraise_or_500 ''Error compressing PDF with Adobe: '' ''Compression failed: '')
                 (adobe_try (\<lambda>w' i out. compress_pdf sv w' i out compression_level)
                    (''compressed_'' @ filename file) ''application/pdf''
                    (''Successfully compressed '' @ filename file @ '' using Adobe'')
                    ''Adobe compression failed. Please try again.''
                    file input_path output_path w2))
              (finally_cleanup (Some input_path) (Some output_path))))"

definition adobe_optimize_pdf ::
  "services \<Rightarrow> upload \<Rightarrow> world \<Rightarrow> (exn + response) \<times> world" where
  "adobe_optimize_pdf sv file w =
     (if \<not> validate_pdf_file file then (Inl invalid_file_type, w)
      else if \<not> validate_file_size (file_size file) then (Inl file_too_large, w)
      else
        (let (input_path, w1) = create_temp_file ''.pdf'' w;
             (output_path, w2) = create_temp_file ''.pdf'' w1
         in try_finally
              (catch (reraise_or_500 ''Error optimizing PDF with Adobe: '' ''Optimization failed: '')
                 (adobe_try (optimize_pdf_for_web sv)
                    (''optimized_'' @ filename file) ''application/pdf''
                    (''Successfully optimized '' @ filename file @ '' using Adobe'')
                    ''Adobe optimization failed. Please try again.''
                    file input_path output_path w2))
              (finally_cleanup (Some input_path) (Some output_path))))"

subsection \<open>\<open>/adobe/extract-text\<close>\<close>

text \<open>
  Here \<open>output_path\<close> is assigned inside the \<open>if extracted_text:\<close> branch only. The
  \<open>try\<close> block returns, with its outcome, the binding of \<open>output_path\<close> it leaves
  behind. \<open>extracted_text\<close> is \<open>None\<close> or a string; both \<open>None\<close> and the empty string
  are falsy.
\<close>

definition extract_try ::
  "services \<Rightarrow> upload \<Rightarrow> string \<Rightarrow> world \<Rightarrow> ((thrown + response) \<times> world) \<times> string option" where
  "extract_try sv file input_path w =
     (case save_upload input_path file w of
        Inl e \<Rightarrow> ((Inl (ThrownErr e), w), None)
      | Inr w1 \<Rightarrow>
          (case extract_text_with_ocr sv w1 input_path of
             Inl e \<Rightarrow> ((Inl (ThrownErr e), w1), None)
           | Inr extracted_text \<Rightarrow>
               (case (if extracted_text = Some [] then None else extracted_text) of
                  Some text \<Rightarrow>
                    (let output_filename = renamed (filename file) ''.txt'';
                         (output_path, w2) = create_temp_file ''.txt'' w1
                     in case write_file output_path text w2 of
                          Inl e \<Rightarrow> ((Inl (ThrownErr e), w2), Some output_path)
                        | Inr w3 \<Rightarrow>
                            ((Inr (FileResponse output_path output_filename ''text/plain''),
                              logger_info (''Successfully extracted text from '' @ filename file
                                             @ '' using Adobe OCR'') w3),
                             Some output_path))
                | None \<Rightarrow>
                    ((Inl (ThrownHTTP 500 ''Adobe text extraction failed. Please try again.''), w1),
                     None))))"

definition adobe_extract_text ::
  "services \<Rightarrow> upload \<Rightarrow> world \<Rightarrow> (exn + response) \<times> world" where
  "adobe_extract_text sv file w =
     (if \<not> validate_pdf_file file then (Inl invalid_file_type, w)
      else if \<not> validate_file_size (file_size file) then (Inl file_too_large, w)
      else
        (let (input_path, w1) = create_temp_file ''.pdf'' w;
             (outcome, output_path) = extract_try sv file input_path w1
         in try_finally
              (catch (reraise_or_500 ''Error extracting text with Adobe: '' ''Text extraction failed: '')
                 outcome)
              (finally_cleanup (Some input_path) output_path)))"

subsection \<open>Routing\<close>

text \<open>The \<open>@app.post\<close> routes and the form fields they read.\<close>

datatype endpoint =
    UnlockPdf | LockPdf | RemovePdfLinks
  | AdobePdfToWord | AdobePdfToExcel | AdobeCompressPdf | AdobeOptimizePdf | AdobeExtractText

record form =
  file_upload :: upload
  password :: string
  compression_level :: string

fun post :: "services \<Rightarrow> endpoint \<Rightarrow> form \<Rightarrow> world \<Rightarrow> (exn + response) \<times> world" where
  "post sv UnlockPdf f w = unlock_pdf_legacy sv (file_upload f) (password f) w"
| "post sv LockPdf f w = lock_pdf_legacy sv (file_upload f) (password f) w"
| "post sv RemovePdfLinks f w = remove_pdf_links_legacy sv (file_upload f) w"
| "post sv AdobePdfToWord f w = adobe_convert_pdf_to_word sv (file_upload f) w"
| "post sv AdobePdfToExcel f w = adobe_convert_pdf_to_excel sv (file_upload f) w"
| "post sv AdobeCompressPdf f w = adobe_compress_pdf sv (file_upload f) (compression_level f) w"
| "post sv AdobeOptimizePdf f w = adobe_optimize_pdf sv (file_upload f) w"
| "post sv AdobeExtractText f w = adobe_extract_text sv (file_upload f) w"

text \<open>
  The framework sends a \<open>FileResponse\<close> after the handler has returned: it reads the
  file at the response's path then, and fails when there is none.
\<close>

definition send_body :: "response \<Rightarrow> world \<Rightarrow> err + string" where
  "send_body r w =
     (case stat w (path r) of
        Some (RegularFile t d rm) \<Rightarrow> Inr d
      | _ \<Rightarrow> Inl (OtherError (''File at path '' @ path r @ '' does not exist.'')))"

section \<open>The cleanup task\<close>

text \<open>
  The body of the \<open>for\<close> loop of \<open>cleanup_temp_files\<close>, over the names that
  \<open>os.listdir(TEMP_DIR)\<close> returned. An exception ends the loop where it is raised;
  what was removed and logged before stays so. \<open>timedelta(minutes=10)\<close> is
  600000000 microseconds.
\<close>

definition timedelta_minutes :: "int \<Rightarrow> int" where
  "timedelta_minutes m = m * 60 * 1000000"

fun cleanup_scan :: "int \<Rightarrow> string list \<Rightarrow> world \<Rightarrow> err option \<times> world" where
  "cleanup_scan current_time [] w = (None, w)"
| "cleanup_scan current_time (fname # rest) w =
     (let filepath = os_path_join (TEMP_DIR w) fname in
      if os_path_isfile w filepath then
        (case os_path_getctime w filepath of
           Inl e \<Rightarrow> (Some e, w)
         | Inr file_time \<Rightarrow>
             if current_time - file_time > timedelta_minutes 10 then
               (case os_remove filepath w of
                  Inl e \<Rightarrow> (Some e, w)
                | Inr w1 \<Rightarrow>
                    cleanup_scan current_time rest
                      (logger_info (''Cleaned up temporary file: '' @ fname) w1))
             else cleanup_scan current_time rest w)
      else cleanup_scan current_time rest w)"

text \<open>The \<open>try\<close> block: one pass over the directory.\<close>

definition cleanup_pass :: "world \<Rightarrow> err option \<times> world" where
  "cleanup_pass w =
     (let current_time = now w in
      case os_listdir w (TEMP_DIR w) of
        Inl e \<Rightarrow> (Some e, w)
      | Inr names \<Rightarrow> cleanup_scan current_time names w)"

text \<open>
  \<open>await asyncio.sleep(CLEANUP_INTERVAL)\<close>: the task resumes that many seconds
  later.
\<close>

definition asyncio_sleep :: "nat \<Rightarrow> world \<Rightarrow> world" where
  "asyncio_sleep secs w =
     w\<lparr>now := now w + int secs * 1000000, sleeps := sleeps w @ [secs]\<rparr>"

text \<open>
  One turn of \<open>while True\<close>: the pass under \<open>try\<close>, the clause
  \<open>except Exception as e: logger.error(...)\<close>, then the sleep. The first component
  is an exception that leaves the loop body, which would end the task.
\<close>

definition cleanup_iteration :: "world \<Rightarrow> err option \<times> world" where
  "cleanup_iteration w =
     (case cleanup_pass w of
        (Some e, w1) \<Rightarrow>
          (None, asyncio_sleep CLEANUP_INTERVAL
                   (logger_error (''Error during cleanup: '' @ str_err e) w1))
      | (None, w1) \<Rightarrow> (None, asyncio_sleep CLEANUP_INTERVAL w1))"

text \<open>
  \<open>cleanup_temp_files\<close> never returns of itself. Its first \<open>n\<close> turns: \<open>None\<close> when
  the task is still running after them, \<open>Some e\<close> when an exception ended it.
\<close>

fun cleanup_temp_files :: "nat \<Rightarrow> world \<Rightarrow> err option \<times> world" where
  "cleanup_temp_files 0 w = (None, w)"
| "cleanup_temp_files (Suc n) w =
     (case cleanup_iteration w of
        (Some e, w1) \<Rightarrow> (Some e, w1)
      | (None, w1) \<Rightarrow> cleanup_temp_files n w1)"

section \<open>Notions used to state the properties\<close>

text \<open>
  Several calls of \<open>create_temp_file\<close> in a row, one for each extension of the list,
  as a handler or a test makes them.
\<close>

fun issue_many :: "string list \<Rightarrow> world \<Rightarrow> string list \<times> world" where
  "issue_many [] w = ([], w)"
| "issue_many (extension # rest) w =
     (let (p, w1) = create_temp_file extension w;
          (ps, w2) = issue_many rest w1
      in (p # ps, w2))"

text \<open>
  The condition under which the loop body of \<open>cleanup_temp_files\<close> removes an entry
  (\<open>os.path.isfile\<close> holds and \<open>current_time - file_time > timedelta(minutes=10)\<close>),
  and what then should be found at a path after a pass.
\<close>

definition stale :: "int \<Rightarrow> node \<Rightarrow> bool" where
  "stale current_time n =
     (case n of
        RegularFile file_time d r \<Rightarrow> current_time - file_time > timedelta_minutes 10
      | Directory t \<Rightarrow> False)"

definition after_pass :: "int \<Rightarrow> node option \<Rightarrow> node option" where
  "after_pass current_time e =
     (case e of
        Some n \<Rightarrow> if stale current_time n then None else Some n
      | None \<Rightarrow> None)"

text \<open>
  Two states that differ at most in the files and in the log.
\<close>

definition same_env :: "world \<Rightarrow> world \<Rightarrow> bool" where
  "same_env w w' =
     (TEMP_DIR w' = TEMP_DIR w \<and> dir_ok w' = dir_ok w \<and> rng w' = rng w \<and> draws w' = draws w
      \<and> issued w' = issued w \<and> now w' = now w \<and> sleeps w' = sleeps w)"

text \<open>
  The extensions a handler passes to \<open>create_temp_file\<close>, in the order of the source,
  and the paths these calls return from a given state. \<open>turned_away\<close> collects the guards
  that stand before the \<open>try\<close> block of a handler: the two common ones and, in
  \<open>adobe_compress_pdf\<close>, the test of the compression level.
\<close>

definition scratch_extensions :: "endpoint \<Rightarrow> string list" where
  "scratch_extensions ep =
     (case ep of
        AdobePdfToWord \<Rightarrow> [''.pdf'', ''.docx'']
      | AdobePdfToExcel \<Rightarrow> [''.pdf'', ''.xlsx'']
      | AdobeExtractText \<Rightarrow> [''.pdf'', ''.txt'']
      | _ \<Rightarrow> [''.pdf'', ''.pdf''])"

definition scratch_paths :: "endpoint \<Rightarrow> world \<Rightarrow> string list" where
  "scratch_paths ep w = fst (issue_many (scratch_extensions ep) w)"

definition turned_away :: "endpoint \<Rightarrow> form \<Rightarrow> bool" where
  "turned_away ep f =
     (if \<not> validate_pdf_file (file_upload f) then True
      else if \<not> validate_file_size (file_size (file_upload f)) then True
      else ep = AdobeCompressPdf \<and> compression_level f \<notin> set [''low'', ''medium'', ''high''])"



subsection \<open>Concrete states and requests\<close>

text \<open>
  A fresh scratch directory at time 700 s; the same with the directory gone; one with a
  file created 11 minutes ago and one created 1 minute ago; one whose first entry is
  an old file that cannot be unlinked. The processing services all succeed, except that
  \<open>no_text_services\<close> finds no text.
\<close>

definition demo_world :: world where
  "demo_world =
     \<lparr>TEMP_DIR = ''/tmp/tmpk3x9'', dir_ok = True, files = [], rng = (\<lambda>n. word_of_nat n),
      draws = 0, now = 700000000, log_records = [], issued = [], sleeps = []\<rparr>"


definition reclaim_world :: world where
  "reclaim_world =
     demo_world\<lparr>files := [(''/tmp/tmpk3x9/old.pdf'', RegularFile 40000000 ''a'' True),
                          (''/tmp/tmpk3x9/new.pdf'', RegularFile 640000000 ''b'' True)]\<rparr>"

definition blocked_world :: world where
  "blocked_world =
     demo_world\<lparr>files := [(''/tmp/tmpk3x9/held.pdf'', RegularFile 0 ''a'' False),
                          (''/tmp/tmpk3x9/old.pdf'', RegularFile 0 ''b'' True)]\<rparr>"

definition demo_services :: services where
  "demo_services =
     \<lparr>pikepdf_unlock = (\<lambda>w i pw out. Call (Some ''%PDF-plain'') (Inr ())),
      pikepdf_is_encrypted = (\<lambda>w i. Inr False),
      pikepdf_lock = (\<lambda>w i pw out. Call (Some ''%PDF-locked'') (Inr ())),
      fitz_remove_links = (\<lambda>w i out. Call (Some ''%PDF-nolinks'') (Inr ())),
      convert_pdf_to_word = (\<lambda>w i out. Call (Some ''docx'') (Inr True)),
      convert_pdf_to_excel = (\<lambda>w i out. Call (Some ''xlsx'') (Inr True)),
      compress_pdf = (\<lambda>w i out lvl. Call (Some ''%PDF-small'') (Inr True)),
      optimize_pdf_for_web = (\<lambda>w i out. Call (Some ''%PDF-web'') (Inr True)),
      extract_text_with_ocr = (\<lambda>w i. Inr (Some ''scanned words''))\<rparr>"

definition no_text_services :: services where
  "no_text_services = demo_services\<lparr>extract_text_with_ocr := (\<lambda>w i. Inr None)\<rparr>"

definition demo_upload :: upload where
  "demo_upload = \<lparr>filename = ''scan.pdf'', file_size = 9, file_body = ''%PDF-scan''\<rparr>"

definition boundary_upload :: upload where
  "boundary_upload = \<lparr>filename = ''BIG.PDF'', file_size = 52428800, file_body = ''%PDF-big''\<rparr>"

definition demo_form :: form where
  "demo_form = \<lparr>file_upload = demo_upload, password = ''pw'', compression_level = ''medium''\<rparr>"

definition other_form :: form where
  "other_form = \<lparr>file_upload = boundary_upload, password = ''hunter2'', compression_level = ''high''\<rparr>"

definition scratch0 :: string where
  "scratch0 = ''/tmp/tmpk3x9/00000000-0000-0000-0000-000000000000.pdf''"

definition scratch1 :: string where
  "scratch1 = ''/tmp/tmpk3x9/00000000-0000-0000-0000-000000000001.pdf''"

section \<open>Identifiers print injectively\<close>

lemma length_hex_digits: "length (hex_digits k n) = k"
  by (induction k arbitrary: n) simp_all

lemma hex_digit_inj: "a < 16 \<Longrightarrow> b < 16 \<Longrightarrow> hex_digit a = hex_digit b \<Longrightarrow> a = b"
  unfolding hex_digit_def
  by (subst (asm) nth_eq_iff_index_eq) simp_all

lemma uuid_hex_parts:
  "uuid_hex u = take 8 (uuid_hex u) @ take 4 (drop 8 (uuid_hex u)) @ take 4 (drop 12 (uuid_hex u))
      @ take 4 (drop 16 (uuid_hex u)) @ drop 20 (uuid_hex u)"
proof -
  let ?h = "uuid_hex u"
  have a: "drop 20 ?h = drop 4 (drop 16 ?h)" by simp
  have b: "drop 16 ?h = drop 4 (drop 12 ?h)" by simp
  have c: "drop 12 ?h = drop 4 (drop 8 ?h)" by simp
  have e1: "take 4 (drop 16 ?h) @ drop 20 ?h = drop 16 ?h"
    unfolding a by (rule append_take_drop_id)
  have e2: "take 4 (drop 12 ?h) @ drop 16 ?h = drop 12 ?h"
    unfolding b by (rule append_take_drop_id)
  have e3: "take 4 (drop 8 ?h) @ drop 12 ?h = drop 8 ?h"
    unfolding c by (rule append_take_drop_id)
  have e4: "take 8 ?h @ drop 8 ?h = ?h"
    by (rule append_take_drop_id)
  show ?thesis
    by (simp only: e1 e2 e3 e4)
qed

lemma hex_digit_not_sep: "a < 16 \<Longrightarrow> hex_digit a \<noteq> CHR ''/''"
proof -
  assume "a < 16"
  then have "hex_digit a \<in> set ''0123456789abcdef''"
    unfolding hex_digit_def by (intro nth_mem) simp
  then show ?thesis by auto
qed

lemma hex_digits_inj:
  "hex_digits k n = hex_digits k m \<Longrightarrow> n mod 16 ^ k = m mod 16 ^ k"
proof (induction k arbitrary: n m)
  case 0
  show ?case by simp
next
  case (Suc k)
  from Suc.prems have a: "hex_digits k (n div 16) = hex_digits k (m div 16)"
    and b: "hex_digit (n mod 16) = hex_digit (m mod 16)"
    by (simp_all add: length_hex_digits)
  from b have b': "n mod 16 = m mod 16"
    by (rule hex_digit_inj [rotated 2]) simp_all
  from Suc.IH [OF a] have c: "(n div 16) mod 16 ^ k = (m div 16) mod 16 ^ k" .
  have "n mod 16 ^ Suc k = 16 * ((n div 16) mod 16 ^ k) + n mod 16" for n :: nat
    by (simp add: mod_mult2_eq)
  then show ?case using b' c by simp
qed

lemma no_sep_hex_digits: "CHR ''/'' \<notin> set (hex_digits k n)"
  by (induction k arbitrary: n) (auto simp: hex_digit_not_sep [symmetric] dest: sym)

lemma uuid_hex_inj: "uuid_hex u = uuid_hex v \<Longrightarrow> u = v"
proof -
  assume "uuid_hex u = uuid_hex v"
  then have "unat u mod 16 ^ 32 = unat v mod 16 ^ 32"
    unfolding uuid_hex_def by (rule hex_digits_inj)
  moreover have "unat x < 16 ^ 32" for x :: uuid
    using unsigned_less [of x, where 'a = nat] by simp
  ultimately have "unat u = unat v" by simp
  then show ?thesis by (simp add: word_unat_eq_iff)
qed

lemma length_uuid_hex: "length (uuid_hex u) = 32"
  by (simp add: uuid_hex_def length_hex_digits)

lemma length_uuid_str: "length (uuid_str u) = 36"
  by (simp add: uuid_str_def Let_def length_uuid_hex)

lemma uuid_str_inj: "uuid_str u = uuid_str v \<Longrightarrow> u = v"
proof -
  assume eq: "uuid_str u = uuid_str v"
  let ?h = "uuid_hex u" and ?g = "uuid_hex v"
  from eq have "take 8 ?h = take 8 ?g \<and> take 4 (drop 8 ?h) = take 4 (drop 8 ?g)
     \<and> take 4 (drop 12 ?h) = take 4 (drop 12 ?g) \<and> take 4 (drop 16 ?h) = take 4 (drop 16 ?g)
     \<and> drop 20 ?h = drop 20 ?g"
    by (simp add: uuid_str_def Let_def length_uuid_hex)
  then have "?h = ?g"
    using uuid_hex_parts [of u] uuid_hex_parts [of v] by simp
  then show ?thesis by (rule uuid_hex_inj)
qed

lemma no_sep_uuid_str: "CHR ''/'' \<notin> set (uuid_str u)"
proof -
  have "CHR ''/'' \<notin> set (uuid_hex u)"
    by (simp add: uuid_hex_def no_sep_hex_digits)
  then show ?thesis
    by (auto simp: uuid_str_def Let_def dest: in_set_takeD in_set_dropD)
qed

lemma uuid_str_nonempty: "uuid_str u \<noteq> []"
  using length_uuid_str [of u] by auto

section \<open>Paths issued by \<open>create_temp_file\<close>\<close>

lemma startswith_sep: "startswith b ''/'' = (b \<noteq> [] \<and> hd b = CHR ''/'')"
  by (cases b) (simp_all add: startswith_def)

lemma os_path_join_rel:
  "\<not> startswith b ''/'' \<Longrightarrow> os_path_join a b = os_path_join a [] @ b"
  by (simp add: os_path_join_def startswith_def)

lemma os_path_join_name:
  "n \<noteq> [] \<Longrightarrow> CHR ''/'' \<notin> set n \<Longrightarrow> os_path_join a n = os_path_join a [] @ n"
  by (rule os_path_join_rel) (cases n, auto simp: startswith_def)

lemma child_name_join:
  "n \<noteq> [] \<Longrightarrow> CHR ''/'' \<notin> set n \<Longrightarrow> child_name d (os_path_join d n) = Some n"
  by (simp add: os_path_join_name) (simp add: child_name_def startswith_def)

lemma child_name_SomeD:
  "child_name d p = Some n \<Longrightarrow> p = os_path_join d n \<and> n \<noteq> [] \<and> CHR ''/'' \<notin> set n"
proof -
  assume a: "child_name d p = Some n"
  let ?pre = "os_path_join d []"
  from a have s: "startswith p ?pre" and n: "n = drop (length ?pre) p"
    and ne: "n \<noteq> []" and ns: "CHR ''/'' \<notin> set n"
    by (auto simp: child_name_def Let_def split: if_splits)
  from s have "p = ?pre @ n"
    unfolding n startswith_def by (metis append_take_drop_id)
  then show ?thesis using ne ns by (simp add: os_path_join_name)
qed

lemma scratch_name_ok:
  "CHR ''/'' \<notin> set extension \<Longrightarrow>
   uuid_str u @ extension \<noteq> [] \<and> CHR ''/'' \<notin> set (uuid_str u @ extension)"
  by (simp add: uuid_str_nonempty no_sep_uuid_str)

lemma uuid_name_rel: "\<not> startswith (uuid_str u @ extension) ''/''"
  using no_sep_uuid_str [of u] uuid_str_nonempty [of u]
  by (cases "uuid_str u") (auto simp: startswith_def)

lemma create_temp_file_eq:
  "create_temp_file extension w =
     (os_path_join (TEMP_DIR w) [] @ uuid_str (rng w (draws w)) @ extension,
      w\<lparr>draws := Suc (draws w),
        issued := issued w @ [os_path_join (TEMP_DIR w) [] @ uuid_str (rng w (draws w)) @ extension]\<rparr>)"
  by (simp add: create_temp_file_def uuid4_def Let_def os_path_join_rel [OF uuid_name_rel])

lemma uuid_ext_inj:
  "uuid_str u @ e = uuid_str v @ f \<Longrightarrow> u = v"
proof -
  assume "uuid_str u @ e = uuid_str v @ f"
  then have "uuid_str u = uuid_str v"
    by (simp add: append_eq_append_conv length_uuid_str)
  then show ?thesis by (rule uuid_str_inj)
qed

lemma issue_many_paths:
  "fst (issue_many exts w) =
     map (\<lambda>(i, e). os_path_join (TEMP_DIR w) [] @ uuid_str (rng w (draws w + i)) @ e)
         (zip [0..<length exts] exts)"
proof (induction exts arbitrary: w)
  case Nil
  show ?case by simp
next
  case (Cons e exts)
  let ?w1 = "snd (create_temp_file e w)"
  have w1: "TEMP_DIR ?w1 = TEMP_DIR w" "rng ?w1 = rng w" "draws ?w1 = Suc (draws w)"
    by (simp_all add: create_temp_file_eq)
  have z: "zip [0..<Suc (length exts)] (e # exts) = (0, e) # map (\<lambda>(i, x). (Suc i, x)) (zip [0..<length exts] exts)"
    by (simp add: upt_conv_Cons map_Suc_upt [symmetric] zip_map1 del: upt_Suc)
  show ?case
    using Cons.IH [of ?w1] w1
    by (simp add: z split_beta create_temp_file_eq comp_def del: upt_Suc)
qed

text \<open>
  \<^bold>\<open>Claim C4.\<close> Whenever the random identifiers drawn for \<open>N\<close> issuances are pairwise
  distinct, the \<open>N\<close> paths returned are pairwise distinct, for every \<open>N\<close> (so also for
  \<open>N \<ge> 1000\<close>), whatever the extensions: an identifier prints as exactly 36 characters
  and printing is injective, so two issued paths agree only if their identifiers do.
\<close>

theorem issued_paths_distinct:
  "distinct (map (rng w) [draws w..<draws w + length exts]) \<Longrightarrow>
   distinct (fst (issue_many exts w))"
proof -
  assume d: "distinct (map (rng w) [draws w..<draws w + length exts])"
  let ?f = "\<lambda>(i, e). os_path_join (TEMP_DIR w) [] @ uuid_str (rng w (draws w + i)) @ e"
  let ?zs = "zip [0..<length exts] exts"
  have inj: "inj_on (\<lambda>i. rng w (draws w + i)) {0..<length exts}"
  proof (rule inj_onI)
    fix i j assume i: "i \<in> {0..<length exts}" and j: "j \<in> {0..<length exts}"
      and e: "rng w (draws w + i) = rng w (draws w + j)"
    from d have "inj_on (rng w) (set [draws w..<draws w + length exts])"
      by (simp add: distinct_map)
    then have "draws w + i = draws w + j"
      using i j e by (auto dest!: inj_onD [where x = "draws w + i" and y = "draws w + j"])
    then show "i = j" by simp
  qed
  have dz: "distinct ?zs" by (rule distinct_zipI1) simp
  have "inj_on ?f (set ?zs)"
  proof (rule inj_onI)
    fix x y assume x: "x \<in> set ?zs" and y: "y \<in> set ?zs" and e: "?f x = ?f y"
    obtain i a where xi: "x = (i, a)" by (cases x)
    obtain j b where yj: "y = (j, b)" by (cases y)
    from x xi have i: "i < length exts" and a: "a = exts ! i"
      by (auto simp: in_set_zip)
    from y yj have j: "j < length exts" and b: "b = exts ! j"
      by (auto simp: in_set_zip)
    from e xi yj have "rng w (draws w + i) = rng w (draws w + j)"
      by (auto dest: uuid_ext_inj)
    with inj i j have "i = j" by (auto dest: inj_onD)
    with a b xi yj show "x = y" by simp
  qed
  with dz have "distinct (map ?f ?zs)" by (simp add: distinct_map)
  then show ?thesis by (simp only: issue_many_paths)
qed

text \<open>
  The hypothesis holds, and the conclusion with it, for three issuances from the fresh
  state.
\<close>

theorem issued_paths_distinct_witness:
  "distinct (map (rng demo_world)
       [draws demo_world..<draws demo_world + length [''.pdf'', ''.pdf'', ''.docx'']])
   \<and> distinct (fst (issue_many [''.pdf'', ''.pdf'', ''.docx''] demo_world))"
proof -
  have h: "distinct (map (rng demo_world)
       [draws demo_world..<draws demo_world + length [''.pdf'', ''.pdf'', ''.docx'']])"
    by (simp add: demo_world_def upt_rec)
  from issued_paths_distinct [OF h] h show ?thesis by simp
qed

section \<open>The paths of the fresh state\<close>

lemma uuid_str_0: "uuid_str 0 = ''00000000-0000-0000-0000-000000000000''"
  by code_simp

lemma uuid_str_1: "uuid_str 1 = ''00000000-0000-0000-0000-000000000001''"
  by code_simp

lemma join_scratch0:
  "os_path_join ''/tmp/tmpk3x9'' ''00000000-0000-0000-0000-000000000000.pdf'' = scratch0"
  unfolding scratch0_def by code_simp

lemma join_scratch1:
  "os_path_join ''/tmp/tmpk3x9'' ''00000000-0000-0000-0000-000000000001.pdf'' = scratch1"
  unfolding scratch1_def by code_simp

lemma child_scratch0:
  "child_name ''/tmp/tmpk3x9'' scratch0 = Some ''00000000-0000-0000-0000-000000000000.pdf''"
  unfolding scratch0_def by code_simp

lemma child_scratch1:
  "child_name ''/tmp/tmpk3x9'' scratch1 = Some ''00000000-0000-0000-0000-000000000001.pdf''"
  unfolding scratch1_def by code_simp

lemma scratch_ne: "scratch0 \<noteq> scratch1" "scratch1 \<noteq> scratch0"
  unfolding scratch0_def scratch1_def by simp_all

lemma demo_valid: "validate_pdf_file demo_upload" "validate_file_size (file_size demo_upload)"
  by code_simp+

lemma create_at_0:
  "TEMP_DIR w = ''/tmp/tmpk3x9'' \<Longrightarrow> rng w (draws w) = 0 \<Longrightarrow>
   create_temp_file ''.pdf'' w = (scratch0, w\<lparr>draws := Suc (draws w), issued := issued w @ [scratch0]\<rparr>)"
  by (simp add: create_temp_file_def uuid4_def uuid_str_0 join_scratch0)

lemma create_at_1:
  "TEMP_DIR w = ''/tmp/tmpk3x9'' \<Longrightarrow> rng w (draws w) = 1 \<Longrightarrow>
   create_temp_file ''.pdf'' w = (scratch1, w\<lparr>draws := Suc (draws w), issued := issued w @ [scratch1]\<rparr>)"
  by (simp add: create_temp_file_def uuid4_def uuid_str_1 join_scratch1)

section \<open>What an issuance changes\<close>

text \<open>
  \<^bold>\<open>Claim C8\<close> (as amended). \<open>create_temp_file(extension)\<close> returns the path made of
  the scratch directory, a separator where the directory name needs one, the text of
  the next random identifier and then the extension as the caller gave it. It returns
  this string and nothing else. It creates no file and records no time: the files, the
  directory, the clock and the log are as before, every path names after the call what
  it named before, and \<open>os.path.getctime\<close> answers as before for every path. The only
  change is that one more identifier has been drawn (and the path is noted as issued).
\<close>

theorem create_temp_file_only_names_a_path:
  "create_temp_file extension w =
     (os_path_join (TEMP_DIR w) (uuid_str (rng w (draws w)) @ extension),
      w\<lparr>draws := Suc (draws w),
        issued := issued w @ [os_path_join (TEMP_DIR w) (uuid_str (rng w (draws w)) @ extension)]\<rparr>)
   \<and> os_path_join (TEMP_DIR w) (uuid_str (rng w (draws w)) @ extension)
       = os_path_join (TEMP_DIR w) [] @ uuid_str (rng w (draws w)) @ extension
   \<and> files (snd (create_temp_file extension w)) = files w
   \<and> dir_ok (snd (create_temp_file extension w)) = dir_ok w
   \<and> now (snd (create_temp_file extension w)) = now w
   \<and> log_records (snd (create_temp_file extension w)) = log_records w
   \<and> stat (snd (create_temp_file extension w)) q = stat w q
   \<and> os_path_getctime (snd (create_temp_file extension w)) q = os_path_getctime w q"
proof -
  have j: "os_path_join (TEMP_DIR w) (uuid_str (rng w (draws w)) @ extension)
       = os_path_join (TEMP_DIR w) [] @ uuid_str (rng w (draws w)) @ extension"
    by (rule os_path_join_rel [OF uuid_name_rel])
  have s: "stat (snd (create_temp_file extension w)) q = stat w q"
    by (auto simp: create_temp_file_eq stat_def)
  show ?thesis
    unfolding os_path_getctime_def s using j s by (simp add: create_temp_file_eq)
qed

text \<open>
  Against the claim as first worded (that issuing records the creation time): after an
  issuance in the fresh state nothing holds a time for the issued path, since
  \<open>os.path.getctime\<close> raises \<open>FileNotFoundError\<close> for it and the clock is untouched, and
  the value returned is the same whether the call is made at time 1 or at time
  999000000.
\<close>

theorem issue_records_no_time:
  "fst (create_temp_file ''.pdf'' demo_world)
     = ''/tmp/tmpk3x9/00000000-0000-0000-0000-000000000000.pdf''
   \<and> os_path_getctime (snd (create_temp_file ''.pdf'' demo_world))
        ''/tmp/tmpk3x9/00000000-0000-0000-0000-000000000000.pdf''
     = Inl (FileNotFoundError ''/tmp/tmpk3x9/00000000-0000-0000-0000-000000000000.pdf'')
   \<and> now (snd (create_temp_file ''.pdf'' demo_world)) = now demo_world
   \<and> fst (create_temp_file ''.pdf'' (demo_world\<lparr>now := 1\<rparr>))
     = fst (create_temp_file ''.pdf'' (demo_world\<lparr>now := 999000000\<rparr>))"
proof -
  have c: "create_temp_file ''.pdf'' (demo_world\<lparr>now := t\<rparr>)
      = (scratch0, demo_world\<lparr>now := t, draws := 1, issued := [scratch0]\<rparr>)" for t
    by (simp add: create_at_0 demo_world_def)
  have c0: "create_temp_file ''.pdf'' demo_world
      = (scratch0, demo_world\<lparr>draws := 1, issued := [scratch0]\<rparr>)"
    by (simp add: create_at_0 demo_world_def)
  show ?thesis
    unfolding c c0 by (simp add: scratch0_def [symmetric] os_path_getctime_def stat_def demo_world_def)
qed

section \<open>Release\<close>

lemma map_of_filter_key:
  "map_of (filter (\<lambda>e. fst e \<noteq> p) xs) q = (if q = p then None else map_of xs q)"
  by (induction xs) auto

lemma stat_os_remove:
  "os_remove p w = Inr w1 \<Longrightarrow> stat w1 q = (if q = p then None else stat w q)"
  by (auto simp: os_remove_def stat_def map_of_filter_key
      split: option.splits node.splits if_splits)

lemma release_result:
  "release p w =
     (None, case stat w p of
              Some (RegularFile t d True) \<Rightarrow> w\<lparr>files := filter (\<lambda>e. fst e \<noteq> p) (files w)\<rparr>
            | _ \<Rightarrow> w)"
  by (simp add: release_def os_path_exists_def os_remove_def
      split: option.splits node.splits bool.splits)

lemma stat_release:
  "stat (snd (release p w)) q =
     (if q = p \<and> (\<exists>t d. stat w p = Some (RegularFile t d True)) then None else stat w q)"
  by (auto simp: release_result stat_def map_of_filter_key
      split: option.splits node.splits bool.splits)

lemma release_all_None: "fst (release_all ps w) = None"
  by (induction ps arbitrary: w) (simp_all add: release_result)

text \<open>
  \<^bold>\<open>Claim C5.\<close> The release step never raises to its caller, for any path and any
  state of the scratch directory: no exception leaves \<open>release\<close>, nor the loop over
  several paths. It removes the file when there is a removable regular file at the
  path and changes nothing otherwise (no file, a file that cannot be removed, the
  directory gone): the failure of \<open>os.remove\<close> is swallowed. Releasing the same path a
  second time raises nothing and changes nothing.
\<close>

theorem release_never_raises:
  "fst (release p w) = None
   \<and> fst (release_all ps w) = None
   \<and> release p w =
       (None, case stat w p of
                Some (RegularFile t d True) \<Rightarrow> w\<lparr>files := filter (\<lambda>e. fst e \<noteq> p) (files w)\<rparr>
              | _ \<Rightarrow> w)
   \<and> release p (snd (release p w)) = (None, snd (release p w))"
proof -
  have twice: "release p (snd (release p w)) = (None, snd (release p w))"
  proof (cases "\<exists>t d. stat w p = Some (RegularFile t d True)")
    case True
    then have "stat (snd (release p w)) p = None"
      by (simp add: stat_release)
    then show ?thesis
      by (simp add: release_def os_path_exists_def)
  next
    case False
    then have "snd (release p w) = w"
      by (auto simp: release_result split: option.splits node.splits bool.splits)
    then show ?thesis
      by (simp add: release_result)
  qed
  show ?thesis
    using twice by (simp add: release_all_None release_result)
qed

section \<open>The cleanup loop keeps running\<close>

lemma cleanup_iteration_None: "fst (cleanup_iteration w) = None"
  by (simp add: cleanup_iteration_def split: prod.splits option.splits)

lemma clock_cleanup_scan:
  "sleeps (snd (cleanup_scan ct ns w)) = sleeps w \<and> now (snd (cleanup_scan ct ns w)) = now w"
  by (induction ns arbitrary: w)
     (auto simp: Let_def os_remove_def logger_info_def
       split: sum.splits option.splits node.splits if_splits)

lemma clock_cleanup_pass:
  "sleeps (snd (cleanup_pass w)) = sleeps w" "now (snd (cleanup_pass w)) = now w"
  by (simp_all add: cleanup_pass_def Let_def clock_cleanup_scan split: sum.splits)

lemma clock_cleanup_iteration:
  "sleeps (snd (cleanup_iteration w)) = sleeps w @ [CLEANUP_INTERVAL]"
  "now (snd (cleanup_iteration w)) = now w + 600 * 1000000"
  using clock_cleanup_pass [of w]
  by (auto simp: cleanup_iteration_def asyncio_sleep_def logger_error_def CLEANUP_INTERVAL_def
      split: prod.splits option.splits)

lemma cleanup_pass_missing_dir:
  "\<not> dir_ok w \<Longrightarrow> cleanup_pass w = (Some (FileNotFoundError (TEMP_DIR w)), w)"
  by (simp add: cleanup_pass_def os_listdir_def)

text \<open>
  \<^bold>\<open>Claim C6.\<close> The background loop is not ended by an error of a pass. From any
  state and for every number \<open>n\<close> of turns, the task is still running after \<open>n\<close>
  turns (no exception has left the loop body), it has slept \<open>n\<close> times, each time
  for \<open>CLEANUP_INTERVAL\<close> = 600 seconds, and its clock has advanced by \<open>n\<close> times ten
  minutes. A turn whose pass raised (while listing or while removing) logs one
  \<open>ERROR\<close> record with the exception's text and goes on to its sleep; a turn whose
  pass raised nothing logs no error.
\<close>

theorem cleanup_loop_survives_errors:
  "fst (cleanup_temp_files n w) = None
   \<and> sleeps (snd (cleanup_temp_files n w)) = sleeps w @ replicate n CLEANUP_INTERVAL
   \<and> CLEANUP_INTERVAL = 600
   \<and> now (snd (cleanup_temp_files n w)) = now w + int n * (600 * 1000000)
   \<and> cleanup_iteration w =
       (case cleanup_pass w of
          (Some e, w1) \<Rightarrow>
            (None, asyncio_sleep CLEANUP_INTERVAL
                     (w1\<lparr>log_records := log_records w1
                                          @ [(ERROR, ''Error during cleanup: '' @ str_err e)]\<rparr>))
        | (None, w1) \<Rightarrow> (None, asyncio_sleep CLEANUP_INTERVAL w1))"
proof -
  have run: "fst (cleanup_temp_files n w) = None
      \<and> sleeps (snd (cleanup_temp_files n w)) = sleeps w @ replicate n CLEANUP_INTERVAL
      \<and> now (snd (cleanup_temp_files n w)) = now w + int n * (600 * 1000000)"
  proof (induction n arbitrary: w)
    case 0
    show ?case by simp
  next
    case (Suc n)
    obtain w1 where it: "cleanup_iteration w = (None, w1)"
      using cleanup_iteration_None [of w] by (cases "cleanup_iteration w") auto
    have s: "sleeps w1 = sleeps w @ [CLEANUP_INTERVAL]" "now w1 = now w + 600 * 1000000"
      using clock_cleanup_iteration [of w] it by simp_all
    show ?case
      using Suc.IH [of w1] it s by (simp add: replicate_append_same algebra_simps)
  qed
  have turn: "cleanup_iteration w =
       (case cleanup_pass w of
          (Some e, w1) \<Rightarrow>
            (None, asyncio_sleep CLEANUP_INTERVAL
                     (w1\<lparr>log_records := log_records w1
                                          @ [(ERROR, ''Error during cleanup: '' @ str_err e)]\<rparr>))
        | (None, w1) \<Rightarrow> (None, asyncio_sleep CLEANUP_INTERVAL w1))"
    by (simp add: cleanup_iteration_def logger_error_def split: prod.splits option.splits)
  show ?thesis
    using run turn by (simp add: CLEANUP_INTERVAL_def)
qed

section \<open>One pass of the cleanup task\<close>

lemma stat_logger_info [simp]: "stat (logger_info m w) p = stat w p"
  by (auto simp: logger_info_def stat_def)

lemma TEMP_DIR_logger_info [simp]: "TEMP_DIR (logger_info m w) = TEMP_DIR w"
  by (simp add: logger_info_def)

lemma TEMP_DIR_os_remove: "os_remove p w = Inr w1 \<Longrightarrow> TEMP_DIR w1 = TEMP_DIR w"
  by (auto simp: os_remove_def split: option.splits node.splits if_splits)

lemma os_remove_removable:
  "stat w p = Some (RegularFile t d True) \<Longrightarrow>
   os_remove p w = Inr (w\<lparr>files := filter (\<lambda>e. fst e \<noteq> p) (files w)\<rparr>)"
  by (simp add: os_remove_def)

lemma cleanup_scan_step_skip:
  "\<not> (\<exists>t d r. stat w (os_path_join (TEMP_DIR w) f) = Some (RegularFile t d r) \<and> ct - t > timedelta_minutes 10) \<Longrightarrow>
   cleanup_scan ct (f # rest) w = cleanup_scan ct rest w"
  by (auto simp: Let_def os_path_isfile_def os_path_getctime_def split: option.splits node.splits)

lemma cleanup_scan_step_remove:
  "stat w (os_path_join (TEMP_DIR w) f) = Some (RegularFile t d True) \<Longrightarrow> ct - t > timedelta_minutes 10 \<Longrightarrow>
   cleanup_scan ct (f # rest) w =
     cleanup_scan ct rest (logger_info (''Cleaned up temporary file: '' @ f)
        (w\<lparr>files := filter (\<lambda>e. fst e \<noteq> os_path_join (TEMP_DIR w) f) (files w)\<rparr>))"
  by (simp add: Let_def os_path_isfile_def os_path_getctime_def os_remove_removable)

lemma stat_drop_file:
  "stat (w\<lparr>files := filter (\<lambda>e. fst e \<noteq> p) (files w)\<rparr>) q = (if q = p then None else stat w q)"
  by (auto simp: stat_def map_of_filter_key)

lemma cleanup_scan_exact:
  assumes "\<And>p t d. stat w p = Some (RegularFile t d False) \<Longrightarrow> \<not> ct - t > timedelta_minutes 10"
  shows "fst (cleanup_scan ct ns w) = None \<and>
         stat (snd (cleanup_scan ct ns w)) p =
           (if p \<in> os_path_join (TEMP_DIR w) ` set ns then after_pass ct (stat w p) else stat w p)"
  using assms
proof (induction ns arbitrary: w)
  case Nil
  show ?case by simp
next
  case (Cons f rest)
  let ?fp = "os_path_join (TEMP_DIR w) f"
  show ?case
  proof (cases "\<exists>t d r. stat w ?fp = Some (RegularFile t d r) \<and> ct - t > timedelta_minutes 10")
    case False
    then have keep: "after_pass ct (stat w ?fp) = stat w ?fp"
      by (auto simp: after_pass_def stale_def split: option.splits node.splits)
    have "cleanup_scan ct (f # rest) w = cleanup_scan ct rest w"
      using False by (rule cleanup_scan_step_skip)
    then show ?thesis
      using Cons.IH [of w] Cons.prems keep by auto
  next
    case True
    then obtain t d r where st: "stat w ?fp = Some (RegularFile t d r)" and old: "ct - t > timedelta_minutes 10"
      by blast
    from Cons.prems st old have r: "r" by (cases r) auto
    let ?w2 = "logger_info (''Cleaned up temporary file: '' @ f)
        (w\<lparr>files := filter (\<lambda>e. fst e \<noteq> ?fp) (files w)\<rparr>)"
    have step: "cleanup_scan ct (f # rest) w = cleanup_scan ct rest ?w2"
      using cleanup_scan_step_remove [of w f t d ct rest] st old r by simp
    have st2: "stat ?w2 q = (if q = ?fp then None else stat w q)" for q
      by (simp add: stat_drop_file)
    have T2: "TEMP_DIR ?w2 = TEMP_DIR w" by simp
    have gone: "after_pass ct (stat w ?fp) = None"
      using st old by (simp add: after_pass_def stale_def)
    have prem2: "\<not> ct - t' > timedelta_minutes 10"
      if "stat ?w2 q = Some (RegularFile t' d' False)" for q t' d'
    proof -
      from that have "stat w q = Some (RegularFile t' d' False)"
        by (simp add: stat_drop_file split: if_splits)
      then show ?thesis by (rule Cons.prems)
    qed
    from Cons.IH [of ?w2, OF prem2]
    have ih: "fst (cleanup_scan ct rest ?w2) = None"
       "stat (snd (cleanup_scan ct rest ?w2)) p =
           (if p \<in> os_path_join (TEMP_DIR w) ` set rest then after_pass ct (stat ?w2 p) else stat ?w2 p)"
      unfolding T2 by simp_all
    show ?thesis
      unfolding step using ih gone by (auto simp: stat_drop_file after_pass_def)
  qed
qed

lemma listed:
  assumes "stat w p = Some n"
  shows "p \<in> os_path_join (TEMP_DIR w) ` set (List.map_filter (child_name (TEMP_DIR w)) (map fst (files w)))"
proof -
  from assms obtain nm where c: "child_name (TEMP_DIR w) p = Some nm" and m: "map_of (files w) p = Some n"
    by (auto simp: stat_def split: if_splits)
  from m have "p \<in> fst ` set (files w)" by (metis map_of_eq_None_iff option.distinct(1))
  with c have "nm \<in> set (List.map_filter (child_name (TEMP_DIR w)) (map fst (files w)))"
    by (force simp: map_filter_def)
  moreover from c have "p = os_path_join (TEMP_DIR w) nm" by (simp add: child_name_SomeD)
  ultimately show ?thesis by blast
qed

text \<open>
  \<^bold>\<open>Claim C3\<close> (as amended). When the scratch directory is there and no file older
  than the threshold is unremovable, one pass raises nothing and removes exactly the
  regular files of the directory whose age \<open>now - ctime\<close> strictly exceeds ten minutes:
  after the pass such a path names nothing, and every other path names what it named
  before (a younger file, with its time and content, a file of exactly ten minutes, a
  directory, or nothing).
\<close>

theorem cleanup_pass_exact:
  assumes "dir_ok w"
    and "\<And>p t d. stat w p = Some (RegularFile t d False) \<Longrightarrow> \<not> now w - t > timedelta_minutes 10"
  shows "fst (cleanup_pass w) = None \<and>
         stat (snd (cleanup_pass w)) p =
           (case stat w p of
              Some (RegularFile t d r) \<Rightarrow>
                if now w - t > timedelta_minutes 10 then None else Some (RegularFile t d r)
            | e \<Rightarrow> e)"
proof -
  let ?ns = "List.map_filter (child_name (TEMP_DIR w)) (map fst (files w))"
  have p: "cleanup_pass w = cleanup_scan (now w) ?ns w"
    using assms(1) by (simp add: cleanup_pass_def os_listdir_def)
  have e: "stat (snd (cleanup_scan (now w) ?ns w)) p = after_pass (now w) (stat w p)"
  proof (cases "stat w p")
    case None
    then show ?thesis using cleanup_scan_exact [of w "now w" ?ns p] assms(2)
      by (auto simp: after_pass_def)
  next
    case (Some n)
    then show ?thesis using cleanup_scan_exact [of w "now w" ?ns p] assms(2) listed [OF Some]
      by auto
  qed
  have "fst (cleanup_scan (now w) ?ns w) = None"
    using cleanup_scan_exact [of w "now w" ?ns p] assms(2) by blast
  then show ?thesis
    unfolding p e by (auto simp: after_pass_def stale_def split: option.splits node.splits)
qed

text \<open>
  With files created 11 minutes and 1 minute before the pass, the pass removes the
  first and keeps the second.
\<close>

theorem cleanup_pass_exact_witness:
  "dir_ok reclaim_world
   \<and> fst (cleanup_pass reclaim_world) = None
   \<and> stat (snd (cleanup_pass reclaim_world)) ''/tmp/tmpk3x9/old.pdf'' = None
   \<and> stat (snd (cleanup_pass reclaim_world)) ''/tmp/tmpk3x9/new.pdf''
       = Some (RegularFile 640000000 ''b'' True)"
proof -
  have d: "dir_ok reclaim_world"
    by (simp add: reclaim_world_def demo_world_def)
  have r: "\<not> now reclaim_world - t > timedelta_minutes 10"
    if "stat reclaim_world p = Some (RegularFile t d False)" for p t d
    using that by (auto simp: stat_def reclaim_world_def demo_world_def split: if_splits)
  have s: "stat reclaim_world ''/tmp/tmpk3x9/old.pdf'' = Some (RegularFile 40000000 ''a'' True)"
    "stat reclaim_world ''/tmp/tmpk3x9/new.pdf'' = Some (RegularFile 640000000 ''b'' True)"
    by code_simp+
  have n: "now reclaim_world = 700000000"
    by (simp add: reclaim_world_def demo_world_def)
  from cleanup_pass_exact [OF d r, where p = "''/tmp/tmpk3x9/old.pdf''"]
       cleanup_pass_exact [OF d r, where p = "''/tmp/tmpk3x9/new.pdf''"]
  show ?thesis using d by (simp add: s n timedelta_minutes_def)
qed

text \<open>
  Against the claim as first worded (for every state of the directory): when the first
  file listed is old but cannot be unlinked, \<open>os.remove\<close> raises \<open>PermissionError\<close>,
  which ends the pass; the old and removable file listed after it is still there.
\<close>

theorem pass_stops_at_unremovable_file:
  "fst (cleanup_pass blocked_world) = Some (PermissionError ''/tmp/tmpk3x9/held.pdf'')
   \<and> stat (snd (cleanup_pass blocked_world)) ''/tmp/tmpk3x9/old.pdf''
       = Some (RegularFile 0 ''b'' True)
   \<and> now blocked_world - 0 > timedelta_minutes 10"
proof -
  have l: "os_listdir blocked_world ''/tmp/tmpk3x9'' = Inr [''held.pdf'', ''old.pdf'']"
    by code_simp
  have j: "os_path_join ''/tmp/tmpk3x9'' ''held.pdf'' = ''/tmp/tmpk3x9/held.pdf''"
    by code_simp
  have s: "stat blocked_world ''/tmp/tmpk3x9/held.pdf'' = Some (RegularFile 0 ''a'' False)"
    "stat blocked_world ''/tmp/tmpk3x9/old.pdf'' = Some (RegularFile 0 ''b'' True)"
    by code_simp+
  have T: "TEMP_DIR blocked_world = ''/tmp/tmpk3x9''" "now blocked_world = 700000000"
    by (simp_all add: blocked_world_def demo_world_def)
  have "cleanup_pass blocked_world = (Some (PermissionError ''/tmp/tmpk3x9/held.pdf''), blocked_world)"
    by (simp add: cleanup_pass_def T l j Let_def os_path_isfile_def os_path_getctime_def s
          os_remove_def timedelta_minutes_def)
  then show ?thesis by (simp add: s T timedelta_minutes_def)
qed

section \<open>What a handler leaves unchanged\<close>

lemma same_env_refl [simp]: "same_env w w"
  by (simp add: same_env_def)

lemma same_env_trans: "same_env a b \<Longrightarrow> same_env b c \<Longrightarrow> same_env a c"
  by (simp add: same_env_def)

lemma same_env_logger [simp]:
  "same_env w (logger_info m w')  = same_env w w'"
  "same_env w (logger_error m w') = same_env w w'"
  by (simp_all add: same_env_def logger_info_def logger_error_def)

lemma same_env_write_file: "write_file p d w = Inr w1 \<Longrightarrow> same_env w w1"
  by (auto simp: write_file_def same_env_def split: if_splits option.splits node.splits)

lemma same_env_library_call: "same_env w (snd (library_call c out w))"
  by (auto simp: library_call_def split: option.splits sum.splits dest: same_env_write_file)

lemma same_env_release: "same_env w (snd (release p w))"
  by (simp add: release_result same_env_def split: option.splits node.splits bool.splits)

lemma same_env_release_all: "same_env w (snd (release_all ps w))"
proof (induction ps arbitrary: w)
  case Nil
  show ?case by simp
next
  case (Cons p ps)
  have "release p w = (None, snd (release p w))" by (simp add: release_result)
  then have "release_all (p # ps) w = release_all ps (snd (release p w))"
    by (metis (no_types, lifting) old.prod.case option.simps(4) release_all.simps(2))
  then show ?case
    using same_env_trans [OF same_env_release [of w p] Cons.IH [of "snd (release p w)"]] by simp
qed

lemma same_env_finally_cleanup: "same_env w (snd (finally_cleanup a b w))"
  by (simp add: finally_cleanup_def same_env_release_all del: release_all.simps split: option.splits)

lemma same_env_try_finally:
  "same_env w (snd rw) \<Longrightarrow> same_env w (snd (try_finally rw (finally_cleanup a b)))"
proof -
  assume a: "same_env w (snd rw)"
  have "snd (try_finally rw (finally_cleanup a b)) = snd (finally_cleanup a b (snd rw))"
    by (simp add: try_finally_def split: prod.splits option.splits)
  then show ?thesis
    using same_env_trans [OF a same_env_finally_cleanup [of "snd rw" a b]] by simp
qed

lemma same_env_catch:
  "(\<And>t w'. same_env w' (snd (h t w'))) \<Longrightarrow> same_env w (snd rw) \<Longrightarrow> same_env w (snd (catch h rw))"
proof -
  assume h: "\<And>t w'. same_env w' (snd (h t w'))" and a: "same_env w (snd rw)"
  show ?thesis
  proof (cases rw)
    case (Pair r w1)
    show ?thesis
    proof (cases r)
      case (Inl t)
      with Pair have "snd (catch h rw) = snd (h t w1)"
        by (simp add: catch_def split: prod.splits)
      then show ?thesis using same_env_trans [OF _ h [of w1 t]] a Pair by simp
    next
      case (Inr x)
      with Pair a show ?thesis by (simp add: catch_def)
    qed
  qed
qed

lemma same_env_unlock_except: "same_env w (snd (unlock_except t w))"
  by (simp add: unlock_except_def split: thrown.splits err.splits)

lemma same_env_reraise_or_500: "same_env w (snd (reraise_or_500 a b t w))"
  by (simp add: reraise_or_500_def split: thrown.splits)

lemma same_env_remove_links_except: "same_env w (snd (remove_links_except t w))"
  by (simp add: remove_links_except_def Let_def)

lemma same_env_save_upload: "save_upload p f w = Inr w1 \<Longrightarrow> same_env w w1"
  by (simp add: save_upload_def same_env_write_file)

lemma same_env_unlock_try: "same_env w (snd (unlock_try sv f pw i out w))"
proof (cases "save_upload i f w")
  case (Inl e)
  then show ?thesis by (simp add: unlock_try_def)
next
  case (Inr w1)
  have "same_env w1 (snd (library_call (pikepdf_unlock sv w1 i pw out) out w1))"
    by (rule same_env_library_call)
  with same_env_save_upload [OF Inr] have "same_env w (snd (library_call (pikepdf_unlock sv w1 i pw out) out w1))"
    by (rule same_env_trans)
  then show ?thesis using Inr
    by (auto simp: unlock_try_def Let_def split: prod.splits sum.splits)
qed

lemma same_env_lock_try: "same_env w (snd (lock_try sv f pw i out w))"
proof (cases "save_upload i f w")
  case (Inl e)
  then show ?thesis by (simp add: lock_try_def)
next
  case (Inr w1)
  have "same_env w1 (snd (library_call (pikepdf_lock sv w1 i pw out) out w1))"
    by (rule same_env_library_call)
  with same_env_save_upload [OF Inr] have "same_env w (snd (library_call (pikepdf_lock sv w1 i pw out) out w1))"
    by (rule same_env_trans)
  then show ?thesis using Inr same_env_save_upload [OF Inr]
    by (auto simp: lock_try_def Let_def split: prod.splits sum.splits err.splits bool.splits)
qed

lemma same_env_remove_links_try: "same_env w (snd (remove_links_try sv f i out w))"
proof (cases "save_upload i f w")
  case (Inl e)
  then show ?thesis by (simp add: remove_links_try_def)
next
  case (Inr w1)
  have "same_env w1 (snd (library_call (fitz_remove_links sv w1 i out) out w1))"
    by (rule same_env_library_call)
  with same_env_save_upload [OF Inr] have "same_env w (snd (library_call (fitz_remove_links sv w1 i out) out w1))"
    by (rule same_env_trans)
  then show ?thesis using Inr
    by (auto simp: remove_links_try_def Let_def split: prod.splits sum.splits)
qed

lemma same_env_adobe_try: "same_env w (snd (adobe_try operation nm mime m1 m2 f i out w))"
proof (cases "save_upload i f w")
  case (Inl e)
  then show ?thesis by (simp add: adobe_try_def)
next
  case (Inr w1)
  have "same_env w1 (snd (library_call (operation w1 i out) out w1))"
    by (rule same_env_library_call)
  with same_env_save_upload [OF Inr] have "same_env w (snd (library_call (operation w1 i out) out w1))"
    by (rule same_env_trans)
  then show ?thesis using Inr
    by (auto simp: adobe_try_def Let_def split: prod.splits sum.splits)
qed

lemma issue_two:
  "fst (issue_many [e1, e2] w) =
     [fst (create_temp_file e1 w), fst (create_temp_file e2 (snd (create_temp_file e1 w)))]"
  by (simp add: split_beta Let_def)

lemma two_path_frame:
  assumes "same_env (snd (create_temp_file e2 (snd (create_temp_file e1 w)))) w'"
  shows "issued w' = issued w @ fst (issue_many [e1, e2] w) \<and> draws w' = draws w + 2
         \<and> TEMP_DIR w' = TEMP_DIR w \<and> rng w' = rng w \<and> dir_ok w' = dir_ok w"
  using assms unfolding issue_two by (simp add: same_env_def create_temp_file_eq)

lemma unlock_env:
  "validate_pdf_file f \<Longrightarrow> validate_file_size (file_size f) \<Longrightarrow>
   same_env (snd (create_temp_file ''.pdf'' (snd (create_temp_file ''.pdf'' w))))
            (snd (unlock_pdf_legacy sv f pw w))"
  by (simp add: unlock_pdf_legacy_def split_beta Let_def same_env_try_finally same_env_catch
        same_env_unlock_except same_env_unlock_try)

lemma lock_env:
  "validate_pdf_file f \<Longrightarrow> validate_file_size (file_size f) \<Longrightarrow>
   same_env (snd (create_temp_file ''.pdf'' (snd (create_temp_file ''.pdf'' w))))
            (snd (lock_pdf_legacy sv f pw w))"
  by (simp add: lock_pdf_legacy_def split_beta Let_def same_env_try_finally same_env_catch
        same_env_reraise_or_500 same_env_lock_try)

lemma remove_links_env:
  "validate_pdf_file f \<Longrightarrow> validate_file_size (file_size f) \<Longrightarrow>
   same_env (snd (create_temp_file ''.pdf'' (snd (create_temp_file ''.pdf'' w))))
            (snd (remove_pdf_links_legacy sv f w))"
  by (simp add: remove_pdf_links_legacy_def split_beta Let_def same_env_try_finally same_env_catch
        same_env_remove_links_except same_env_remove_links_try)

lemma word_env:
  "validate_pdf_file f \<Longrightarrow> validate_file_size (file_size f) \<Longrightarrow>
   same_env (snd (create_temp_file ''.docx'' (snd (create_temp_file ''.pdf'' w))))
            (snd (adobe_convert_pdf_to_word sv f w))"
  by (simp add: adobe_convert_pdf_to_word_def split_beta Let_def same_env_try_finally same_env_catch
        same_env_reraise_or_500 same_env_adobe_try)

lemma excel_env:
  "validate_pdf_file f \<Longrightarrow> validate_file_size (file_size f) \<Longrightarrow>
   same_env (snd (create_temp_file ''.xlsx'' (snd (create_temp_file ''.pdf'' w))))
            (snd (adobe_convert_pdf_to_excel sv f w))"
  by (simp add: adobe_convert_pdf_to_excel_def split_beta Let_def same_env_try_finally same_env_catch
        same_env_reraise_or_500 same_env_adobe_try)

lemma compress_env:
  "validate_pdf_file f \<Longrightarrow> validate_file_size (file_size f) \<Longrightarrow>
   lvl \<in> set [''low'', ''medium'', ''high''] \<Longrightarrow>
   same_env (snd (create_temp_file ''.pdf'' (snd (create_temp_file ''.pdf'' w))))
            (snd (adobe_compress_pdf sv f lvl w))"
  by (simp add: adobe_compress_pdf_def split_beta Let_def same_env_try_finally same_env_catch
        same_env_reraise_or_500 same_env_adobe_try)

lemma optimize_env:
  "validate_pdf_file f \<Longrightarrow> validate_file_size (file_size f) \<Longrightarrow>
   same_env (snd (create_temp_file ''.pdf'' (snd (create_temp_file ''.pdf'' w))))
            (snd (adobe_optimize_pdf sv f w))"
  by (simp add: adobe_optimize_pdf_def split_beta Let_def same_env_try_finally same_env_catch
        same_env_reraise_or_500 same_env_adobe_try)

lemma post_turned_away:
  "turned_away ep f \<Longrightarrow> \<exists>d. post sv ep f w = (Inl (HTTPException 400 d), w)"
  by (cases ep)
     (auto simp: turned_away_def unlock_pdf_legacy_def lock_pdf_legacy_def
        remove_pdf_links_legacy_def adobe_convert_pdf_to_word_def adobe_convert_pdf_to_excel_def
        adobe_compress_pdf_def adobe_optimize_pdf_def adobe_extract_text_def
        invalid_file_type_def file_too_large_def split: if_splits)

lemma post_two_paths:
  assumes "\<not> turned_away ep f" and "ep \<noteq> AdobeExtractText"
  shows "issued (snd (post sv ep f w)) = issued w @ scratch_paths ep w
         \<and> draws (snd (post sv ep f w)) = draws w + 2
         \<and> TEMP_DIR (snd (post sv ep f w)) = TEMP_DIR w \<and> rng (snd (post sv ep f w)) = rng w
         \<and> dir_ok (snd (post sv ep f w)) = dir_ok w"
proof -
  from assms(1) have v: "validate_pdf_file (file_upload f)" "validate_file_size (file_size (file_upload f))"
    and c: "ep = AdobeCompressPdf \<Longrightarrow> compression_level f \<in> set [''low'', ''medium'', ''high'']"
    by (auto simp: turned_away_def split: if_splits)
  show ?thesis
  proof (cases ep)
    case UnlockPdf
    show ?thesis unfolding UnlockPdf scratch_paths_def scratch_extensions_def
      using two_path_frame [OF unlock_env [OF v]] by simp
  next
    case LockPdf
    show ?thesis unfolding LockPdf scratch_paths_def scratch_extensions_def
      using two_path_frame [OF lock_env [OF v]] by simp
  next
    case RemovePdfLinks
    show ?thesis unfolding RemovePdfLinks scratch_paths_def scratch_extensions_def
      using two_path_frame [OF remove_links_env [OF v]] by simp
  next
    case AdobePdfToWord
    show ?thesis unfolding AdobePdfToWord scratch_paths_def scratch_extensions_def
      using two_path_frame [OF word_env [OF v]] by simp
  next
    case AdobePdfToExcel
    show ?thesis unfolding AdobePdfToExcel scratch_paths_def scratch_extensions_def
      using two_path_frame [OF excel_env [OF v]] by simp
  next
    case AdobeCompressPdf
    show ?thesis unfolding AdobeCompressPdf scratch_paths_def scratch_extensions_def
      using two_path_frame [OF compress_env [OF v c [OF AdobeCompressPdf]]] by simp
  next
    case AdobeOptimizePdf
    show ?thesis unfolding AdobeOptimizePdf scratch_paths_def scratch_extensions_def
      using two_path_frame [OF optimize_env [OF v]] by simp
  next
    case AdobeExtractText
    with assms(2) show ?thesis by simp
  qed
qed

lemma create_same_env:
  "same_env w w' \<Longrightarrow>
   fst (create_temp_file e w') = fst (create_temp_file e w)
   \<and> issued (snd (create_temp_file e w')) = issued w @ [fst (create_temp_file e w)]
   \<and> draws (snd (create_temp_file e w')) = Suc (draws w)
   \<and> TEMP_DIR (snd (create_temp_file e w')) = TEMP_DIR w
   \<and> rng (snd (create_temp_file e w')) = rng w
   \<and> dir_ok (snd (create_temp_file e w')) = dir_ok w"
  by (simp add: same_env_def create_temp_file_eq)

lemma extract_try_env:
  "same_env w (snd (fst (extract_try sv f i w)))
   \<or> (\<exists>w'. same_env w w' \<and> same_env (snd (create_temp_file ''.txt'' w')) (snd (fst (extract_try sv f i w))))"
proof (cases "save_upload i f w")
  case (Inl e)
  then show ?thesis by (simp add: extract_try_def)
next
  case (Inr w1)
  note s = same_env_save_upload [OF Inr]
  show ?thesis
  proof (cases "extract_text_with_ocr sv w1 i")
    case (Inl e)
    with Inr s show ?thesis by (simp add: extract_try_def)
  next
    case ocr: (Inr ot)
    show ?thesis
    proof (cases "if ot = Some [] then None else ot")
      case None
      with Inr ocr s show ?thesis by (simp add: extract_try_def)
    next
      case (Some t)
      let ?c = "create_temp_file ''.txt'' w1"
      have "same_env (snd ?c) (snd (fst (extract_try sv f i w)))"
      proof (cases "write_file (fst ?c) t (snd ?c)")
        case (Inl e)
        with Inr ocr Some show ?thesis
          by (simp add: extract_try_def split_beta Let_def)
      next
        case wr: (Inr w3)
        with Inr ocr Some same_env_write_file [OF wr] show ?thesis
          by (simp add: extract_try_def split_beta Let_def)
      qed
      with s show ?thesis by blast
    qed
  qed
qed

lemma extract_env:
  assumes "validate_pdf_file f" "validate_file_size (file_size f)"
  shows "same_env (snd (create_temp_file ''.pdf'' w)) (snd (adobe_extract_text sv f w))
   \<or> (\<exists>w'. same_env (snd (create_temp_file ''.pdf'' w)) w'
          \<and> same_env (snd (create_temp_file ''.txt'' w')) (snd (adobe_extract_text sv f w)))"
proof -
  let ?w1 = "snd (create_temp_file ''.pdf'' w)"
  let ?i = "fst (create_temp_file ''.pdf'' w)"
  let ?t = "extract_try sv f ?i ?w1"
  have H: "adobe_extract_text sv f w =
      try_finally (catch (reraise_or_500 ''Error extracting text with Adobe: '' ''Text extraction failed: '') (fst ?t))
         (finally_cleanup (Some ?i) (snd ?t))"
    using assms by (simp add: adobe_extract_text_def split_beta Let_def)
  have step: "same_env x (snd (fst ?t)) \<Longrightarrow> same_env x (snd (adobe_extract_text sv f w))" for x
    unfolding H by (intro same_env_try_finally same_env_catch same_env_reraise_or_500)
  from extract_try_env [where w = ?w1 and sv = sv and f = f and i = ?i] show ?thesis
    using step by blast
qed

lemma extract_issued:
  assumes "validate_pdf_file f" "validate_file_size (file_size f)"
  shows "\<exists>k\<in>{1, 2}. issued (snd (adobe_extract_text sv f w)) = issued w @ take k (scratch_paths AdobeExtractText w)
           \<and> draws (snd (adobe_extract_text sv f w)) = draws w + k"
proof -
  let ?w1 = "snd (create_temp_file ''.pdf'' w)"
  let ?r = "snd (adobe_extract_text sv f w)"
  have sp: "scratch_paths AdobeExtractText w =
      [fst (create_temp_file ''.pdf'' w), fst (create_temp_file ''.txt'' ?w1)]"
    by (simp only: scratch_paths_def scratch_extensions_def endpoint.case issue_two)
  from extract_env [OF assms, where w = w and sv = sv] show ?thesis
  proof
    assume "same_env ?w1 ?r"
    then have "issued ?r = issued w @ take 1 (scratch_paths AdobeExtractText w) \<and> draws ?r = draws w + 1"
      by (simp add: sp same_env_def create_temp_file_eq)
    then show ?thesis by blast
  next
    assume "\<exists>w'. same_env ?w1 w' \<and> same_env (snd (create_temp_file ''.txt'' w')) ?r"
    then obtain w' where a: "same_env ?w1 w'" and b: "same_env (snd (create_temp_file ''.txt'' w')) ?r"
      by blast
    from create_same_env [OF a, of "''.txt''"] b
    have "issued ?r = issued w @ take 2 (scratch_paths AdobeExtractText w) \<and> draws ?r = draws w + 2"
      by (simp add: sp same_env_def create_temp_file_eq)
    then show ?thesis by blast
  qed
qed

lemma post_issued:
  assumes "\<not> turned_away ep f"
  shows "\<exists>k\<in>{1, 2}. issued (snd (post sv ep f w)) = issued w @ take k (scratch_paths ep w)
           \<and> draws (snd (post sv ep f w)) = draws w + k
           \<and> (ep \<noteq> AdobeExtractText \<longrightarrow> k = 2)"
proof (cases "ep = AdobeExtractText")
  case True
  from assms have v: "validate_pdf_file (file_upload f)" "validate_file_size (file_size (file_upload f))"
    by (auto simp: turned_away_def split: if_splits)
  from extract_issued [OF v, where w = w and sv = sv] show ?thesis unfolding True by auto
next
  case False
  have "length (scratch_paths ep w) = 2"
    by (simp add: scratch_paths_def scratch_extensions_def split_beta Let_def split: endpoint.splits)
  with post_two_paths [OF assms False, where sv = sv and w = w] False show ?thesis by auto
qed

lemma post_issued_any:
  "\<exists>k. issued (snd (post sv ep f w)) = issued w @ take k (scratch_paths ep w)"
proof (cases "turned_away ep f")
  case True
  from post_turned_away [OF True, where sv = sv and w = w] have "issued (snd (post sv ep f w)) = issued w @ take 0 (scratch_paths ep w)"
    by auto
  then show ?thesis by blast
next
  case False
  from post_issued [OF False, where sv = sv and w = w] show ?thesis by blast
qed

lemma scratch_paths_cong:
  "TEMP_DIR w1 = TEMP_DIR w2 \<Longrightarrow> rng w1 = rng w2 \<Longrightarrow> draws w1 = draws w2 \<Longrightarrow>
   scratch_paths ep w1 = scratch_paths ep w2"
  unfolding scratch_paths_def issue_many_paths by simp

lemma take_take_prefix: "prefix (take k1 xs) (take k2 xs) \<or> prefix (take k2 xs) (take k1 xs)"
proof (cases "k1 \<le> k2")
  case True
  have "prefix (take k1 (take k2 xs)) (take k2 xs)" by (rule take_is_prefix)
  then show ?thesis using True by (simp add: min_absorb1)
next
  case False
  have "prefix (take k2 (take k1 xs)) (take k1 xs)" by (rule take_is_prefix)
  then show ?thesis using False by (simp add: min_absorb1)
qed

lemma length_scratch_paths: "length (scratch_paths ep w) = 2"
  by (simp add: scratch_paths_def scratch_extensions_def split_beta Let_def split: endpoint.splits)

text \<open>
  \<^bold>\<open>Claim C9\<close> (as amended). The paths issued while a request is handled are not
  derived from the request. Take two runs of the same endpoint from states with the same scratch
  directory name and the same source of identifiers at the same position; the uploaded
  file (name, size, content), the password, the compression level, the behaviour of the
  processing services and the files already on disk may all differ. Then the lists of
  paths issued in the two runs agree position by position: one is an initial segment of
  the other. They can differ in length only, since a request turned away by a guard
  issues none and text extraction issues its second path only when text was found.
  For the other endpoints, two requests that pass the guards are issued the same two
  paths.
\<close>

theorem issued_paths_ignore_request:
  assumes "TEMP_DIR w1 = TEMP_DIR w2" and "rng w1 = rng w2" and "draws w1 = draws w2"
  shows "(prefix (drop (length (issued w1)) (issued (snd (post sv1 ep f1 w1))))
                 (drop (length (issued w2)) (issued (snd (post sv2 ep f2 w2))))
          \<or> prefix (drop (length (issued w2)) (issued (snd (post sv2 ep f2 w2))))
                    (drop (length (issued w1)) (issued (snd (post sv1 ep f1 w1)))))
       \<and> (\<not> turned_away ep f1 \<and> \<not> turned_away ep f2 \<and> ep \<noteq> AdobeExtractText \<longrightarrow>
            drop (length (issued w1)) (issued (snd (post sv1 ep f1 w1)))
              = drop (length (issued w2)) (issued (snd (post sv2 ep f2 w2)))
            \<and> length (drop (length (issued w1)) (issued (snd (post sv1 ep f1 w1)))) = 2)"
proof -
  let ?n1 = "drop (length (issued w1)) (issued (snd (post sv1 ep f1 w1)))"
  let ?n2 = "drop (length (issued w2)) (issued (snd (post sv2 ep f2 w2)))"
  let ?ps = "scratch_paths ep w1"
  have ps: "scratch_paths ep w2 = ?ps"
    by (rule scratch_paths_cong [OF assms, symmetric])
  obtain k1 where "issued (snd (post sv1 ep f1 w1)) = issued w1 @ take k1 ?ps"
    using post_issued_any [where sv = sv1 and ep = ep and f = f1 and w = w1] by blast
  then have k1: "?n1 = take k1 ?ps" by simp
  obtain k2 where "issued (snd (post sv2 ep f2 w2)) = issued w2 @ take k2 (scratch_paths ep w2)"
    using post_issued_any [where sv = sv2 and ep = ep and f = f2 and w = w2] by blast
  then have k2: "?n2 = take k2 ?ps" by (simp add: ps)
  have a: "prefix ?n1 ?n2 \<or> prefix ?n2 ?n1"
    unfolding k1 k2 by (rule take_take_prefix)
  have b: "?n1 = ?n2 \<and> length ?n1 = 2"
    if h: "\<not> turned_away ep f1 \<and> \<not> turned_away ep f2 \<and> ep \<noteq> AdobeExtractText"
  proof -
    from h have h1: "\<not> turned_away ep f1" and h2: "\<not> turned_away ep f2" and h3: "ep \<noteq> AdobeExtractText"
      by simp_all
    from post_two_paths [OF h1 h3, where sv = sv1 and w = w1] have e1: "?n1 = ?ps" by simp
    from post_two_paths [OF h2 h3, where sv = sv2 and w = w2] have e2: "?n2 = ?ps" by (simp add: ps)
    show ?thesis unfolding e1 e2 by (simp add: length_scratch_paths)
  qed
  show ?thesis
  proof (rule conjI)
    show "prefix ?n1 ?n2 \<or> prefix ?n2 ?n1" by (rule a)
    show "\<not> turned_away ep f1 \<and> \<not> turned_away ep f2 \<and> ep \<noteq> AdobeExtractText \<longrightarrow> ?n1 = ?n2 \<and> length ?n1 = 2"
      using b by (rule impI)
  qed
qed

lemma demo_form_accepted:
  "\<not> turned_away UnlockPdf demo_form" "\<not> turned_away UnlockPdf other_form"
  by code_simp+

text \<open>
  Two unlock requests with different files and passwords, served by different
  services from directories of different content, are issued the same paths.
\<close>

theorem issued_paths_ignore_request_witness:
  "TEMP_DIR demo_world = TEMP_DIR reclaim_world
   \<and> rng demo_world = rng reclaim_world
   \<and> draws demo_world = draws reclaim_world
   \<and> \<not> turned_away UnlockPdf demo_form
   \<and> \<not> turned_away UnlockPdf other_form
   \<and> drop (length (issued demo_world)) (issued (snd (post demo_services UnlockPdf demo_form demo_world)))
       = drop (length (issued reclaim_world))
           (issued (snd (post no_text_services UnlockPdf other_form reclaim_world)))"
proof -
  have a: "TEMP_DIR demo_world = TEMP_DIR reclaim_world" "rng demo_world = rng reclaim_world"
    "draws demo_world = draws reclaim_world"
    by (simp_all add: reclaim_world_def)
  from issued_paths_ignore_request [OF a, where ep = UnlockPdf and ?f1.0 = demo_form
      and ?f2.0 = other_form and ?sv1.0 = demo_services and ?sv2.0 = no_text_services]
  show ?thesis using a demo_form_accepted by simp
qed

section \<open>The guards before the \<open>try\<close> block\<close>

lemma turned_away_iff:
  "turned_away ep f =
     (\<not> endswith (lower (filename (file_upload f))) ''.pdf''
      \<or> file_size (file_upload f) > 52428800
      \<or> (ep = AdobeCompressPdf \<and> compression_level f \<notin> {''low'', ''medium'', ''high''}))"
  by (auto simp: turned_away_def validate_pdf_file_def validate_file_size_def MAX_FILE_SIZE_def)

lemma accepted_issues:
  assumes "\<not> turned_away ep f"
  shows "issued (snd (post sv ep f w)) \<noteq> issued w"
proof -
  from post_issued [OF assms, where sv = sv and w = w]
  obtain k where k: "k \<in> {1, 2}" and i: "issued (snd (post sv ep f w)) = issued w @ take k (scratch_paths ep w)"
    by blast
  from k have "take k (scratch_paths ep w) \<noteq> []"
    using length_scratch_paths [of ep w] by auto
  with i show ?thesis by simp
qed



lemma dir_ok_create [simp]: "dir_ok (snd (create_temp_file e w)) = dir_ok w"
  by (simp add: create_temp_file_eq)



text \<open>
  \<^bold>\<open>Claim C10\<close> (as amended). For every endpoint, a request is answered with status
  400 without any scratch path having been issued if and only if the file name does not
  end with \<open>.pdf\<close> after lower-casing, or the declared size exceeds 52428800 bytes, or
  the endpoint is the compression endpoint and the compression level is none of
  \<open>low\<close>, \<open>medium\<close>, \<open>high\<close>. In that case the whole state is untouched. The content
  of the file plays no part, and a size of exactly 52428800 is accepted.
\<close>

theorem rejected_before_issuing:
  "(((\<exists>d. fst (post sv ep f w) = Inl (HTTPException 400 d))
      \<and> issued (snd (post sv ep f w)) = issued w)
    = (\<not> endswith (lower (filename (file_upload f))) ''.pdf''
       \<or> file_size (file_upload f) > 52428800
       \<or> (ep = AdobeCompressPdf \<and> compression_level f \<notin> {''low'', ''medium'', ''high''})))
   \<and> ((\<exists>d. post sv ep f w = (Inl (HTTPException 400 d), w))
    = (\<not> endswith (lower (filename (file_upload f))) ''.pdf''
       \<or> file_size (file_upload f) > 52428800
       \<or> (ep = AdobeCompressPdf \<and> compression_level f \<notin> {''low'', ''medium'', ''high''})))"
proof (cases "turned_away ep f")
  case True
  from post_turned_away [OF True, where sv = sv and w = w]
  obtain d where d: "post sv ep f w = (Inl (HTTPException 400 d), w)" by blast
  then have "(\<exists>d. fst (post sv ep f w) = Inl (HTTPException 400 d)) \<and> issued (snd (post sv ep f w)) = issued w"
    by simp
  moreover from d have "\<exists>d. post sv ep f w = (Inl (HTTPException 400 d), w)" by blast
  ultimately show ?thesis
    using True unfolding turned_away_iff by blast
next
  case False
  from accepted_issues [OF False, where sv = sv and w = w]
  have n: "issued (snd (post sv ep f w)) \<noteq> issued w" .
  then have "\<not> (\<exists>d. post sv ep f w = (Inl (HTTPException 400 d), w))" by auto
  with n show ?thesis
    using False unfolding turned_away_iff by blast
qed

text \<open>
  A file named \<open>BIG.PDF\<close> of exactly 52428800 bytes is not turned away.
\<close>

theorem rejected_before_issuing_witness:
  "endswith (lower (filename (file_upload other_form))) ''.pdf''
   \<and> file_size (file_upload other_form) = 52428800
   \<and> \<not> ((\<exists>d. fst (post demo_services UnlockPdf other_form demo_world) = Inl (HTTPException 400 d))
          \<and> issued (snd (post demo_services UnlockPdf other_form demo_world)) = issued demo_world)"
proof -
  have e: "endswith (lower (filename (file_upload other_form))) ''.pdf''" by code_simp
  have z: "file_size (file_upload other_form) = 52428800"
    by (simp add: other_form_def boundary_upload_def)
  from rejected_before_issuing [of demo_services UnlockPdf other_form demo_world]
  show ?thesis using e z by simp
qed

text \<open>
  Against the claim as first worded (name and size only): the compression endpoint
  answers 400 to a well-named small file when the compression level is \<open>max\<close>, and
  leaves the state untouched.
\<close>

theorem compression_level_also_rejects:
  "post demo_services AdobeCompressPdf (demo_form\<lparr>compression_level := ''max''\<rparr>) demo_world
     = (Inl (HTTPException 400 ''Invalid compression level. Use: low, medium, or high.''), demo_world)
   \<and> endswith (lower (filename (file_upload (demo_form\<lparr>compression_level := ''max''\<rparr>)))) ''.pdf''
   \<and> file_size (file_upload (demo_form\<lparr>compression_level := ''max''\<rparr>)) \<le> 52428800"
proof -
  have e: "endswith (lower (filename demo_upload)) ''.pdf''" by code_simp
  have v: "validate_pdf_file demo_upload" "validate_file_size (file_size demo_upload)"
    by (rule demo_valid)+
  show ?thesis
    using e v by (simp add: adobe_compress_pdf_def demo_form_def) (simp add: demo_upload_def)
qed




section \<open>What the \<open>finally\<close> block does\<close>

text \<open>
  For every endpoint that issues both paths before its \<open>try\<close> block, the \<open>finally\<close>
  block releases both on every route, and a response, when there is one, names the
  second path: when the handler returns, the file of the response is no longer there,
  unless it could not be removed. Text extraction behaves so only on the route that
  assigns \<open>output_path\<close>; on its other routes nothing is released.
\<close>

lemma snd_try_finally:
  "snd (try_finally rw (finally_cleanup (Some i) (Some out))) = snd (release_all [i, out] (snd rw))"
  by (simp add: try_finally_def finally_cleanup_def split: prod.splits del: release_all.simps)

lemma release_all_two:
  "snd (release_all [i, out] w) = snd (release out (snd (release i w)))"
  by (simp add: release_result)

lemma not_removable_after_release:
  "\<not> (\<exists>t d. stat (snd (release p w)) p = Some (RegularFile t d True))"
  by (auto simp: stat_release)

lemma not_removable_kept:
  "\<not> (\<exists>t d. stat w p = Some (RegularFile t d True)) \<Longrightarrow>
   \<not> (\<exists>t d. stat (snd (release q w)) p = Some (RegularFile t d True))"
  by (auto simp: stat_release split: if_splits)

lemma released_pair:
  "p = i \<or> p = out \<Longrightarrow>
   \<not> (\<exists>t d. stat (snd (release_all [i, out] w)) p = Some (RegularFile t d True))"
  unfolding release_all_two
  using not_removable_after_release [of out "snd (release i w)"]
        not_removable_kept [OF not_removable_after_release [of i w], of out]
  by blast

lemma catch_Inr: "fst (catch h rw) = Inr r \<Longrightarrow> fst rw = Inr r"
  by (auto simp: catch_def split: prod.splits sum.splits)

lemma unlock_try_path: "fst (unlock_try sv f pw i out w) = Inr r \<Longrightarrow> path r = out"
  by (auto simp: unlock_try_def Let_def split: sum.splits prod.splits)

lemma lock_try_path: "fst (lock_try sv f pw i out w) = Inr r \<Longrightarrow> path r = out"
  by (auto simp: lock_try_def Let_def split: sum.splits prod.splits err.splits bool.splits)

lemma remove_links_try_path: "fst (remove_links_try sv f i out w) = Inr r \<Longrightarrow> path r = out"
  by (auto simp: remove_links_try_def Let_def split: sum.splits prod.splits)

lemma adobe_try_path: "fst (adobe_try operation nm mime m1 m2 f i out w) = Inr r \<Longrightarrow> path r = out"
  by (auto simp: adobe_try_def Let_def split: sum.splits prod.splits if_splits)

lemma extract_try_path:
  "fst (fst (extract_try sv f i w)) = Inr r \<Longrightarrow> snd (extract_try sv f i w) = Some (path r)"
  by (auto simp: extract_try_def Let_def split_beta split: sum.splits option.splits if_splits)

lemma two_path_outcome:
  assumes "\<And>r. fst t = Inr r \<Longrightarrow> path r = out"
  shows "\<not> (\<exists>t' d. stat (snd (try_finally (catch h t) (finally_cleanup (Some i) (Some out)))) i
              = Some (RegularFile t' d True))"
    and "\<not> (\<exists>t' d. stat (snd (try_finally (catch h t) (finally_cleanup (Some i) (Some out)))) out
              = Some (RegularFile t' d True))"
    and "fst (try_finally (catch h t) (finally_cleanup (Some i) (Some out))) = Inr r \<Longrightarrow> path r = out"
proof -
  show "\<not> (\<exists>t' d. stat (snd (try_finally (catch h t) (finally_cleanup (Some i) (Some out)))) i
              = Some (RegularFile t' d True))"
    unfolding snd_try_finally by (rule released_pair) simp
  show "\<not> (\<exists>t' d. stat (snd (try_finally (catch h t) (finally_cleanup (Some i) (Some out)))) out
              = Some (RegularFile t' d True))"
    unfolding snd_try_finally by (rule released_pair) simp
  assume "fst (try_finally (catch h t) (finally_cleanup (Some i) (Some out))) = Inr r"
  then have "fst (catch h t) = Inr r"
    by (simp add: try_finally_def finally_cleanup_def split: prod.splits)
  then have "fst t = Inr r" by (rule catch_Inr)
  then show "path r = out" by (rule assms)
qed

lemmas unlock_outcome = two_path_outcome [OF unlock_try_path]
lemmas lock_outcome = two_path_outcome [OF lock_try_path]
lemmas remove_links_outcome = two_path_outcome [OF remove_links_try_path]
lemmas adobe_outcome = two_path_outcome [OF adobe_try_path]

lemma post_two_path_outcome:
  assumes "\<not> turned_away ep f" and "ep \<noteq> AdobeExtractText"
  shows "\<not> (\<exists>t d. stat (snd (post sv ep f w)) (scratch_paths ep w ! 0) = Some (RegularFile t d True))
       \<and> \<not> (\<exists>t d. stat (snd (post sv ep f w)) (scratch_paths ep w ! 1) = Some (RegularFile t d True))
       \<and> (\<forall>r. fst (post sv ep f w) = Inr r \<longrightarrow> path r = scratch_paths ep w ! 1)"
proof -
  from assms(1) have v: "validate_pdf_file (file_upload f)" "validate_file_size (file_size (file_upload f))"
    and c: "ep = AdobeCompressPdf \<Longrightarrow> compression_level f \<in> set [''low'', ''medium'', ''high'']"
    by (auto simp: turned_away_def split: if_splits)
  have sp: "scratch_paths ep w ! 0 = fst (create_temp_file (scratch_extensions ep ! 0) w)"
    "scratch_paths ep w ! 1 = fst (create_temp_file (scratch_extensions ep ! 1)
        (snd (create_temp_file (scratch_extensions ep ! 0) w)))"
    by (simp_all add: scratch_paths_def scratch_extensions_def split_beta Let_def split: endpoint.splits)
  show ?thesis
  proof (cases ep)
    case UnlockPdf
    show ?thesis unfolding sp unfolding UnlockPdf using v unlock_outcome
      by (simp add: scratch_extensions_def unlock_pdf_legacy_def split_beta Let_def)
  next
    case LockPdf
    show ?thesis unfolding sp unfolding LockPdf using v lock_outcome
      by (simp add: scratch_extensions_def lock_pdf_legacy_def split_beta Let_def)
  next
    case RemovePdfLinks
    show ?thesis unfolding sp unfolding RemovePdfLinks using v remove_links_outcome
      by (simp add: scratch_extensions_def remove_pdf_links_legacy_def split_beta Let_def)
  next
    case AdobePdfToWord
    show ?thesis unfolding sp unfolding AdobePdfToWord using v adobe_outcome
      by (simp add: scratch_extensions_def adobe_convert_pdf_to_word_def split_beta Let_def)
  next
    case AdobePdfToExcel
    show ?thesis unfolding sp unfolding AdobePdfToExcel using v adobe_outcome
      by (simp add: scratch_extensions_def adobe_convert_pdf_to_excel_def split_beta Let_def)
  next
    case AdobeCompressPdf
    show ?thesis unfolding sp unfolding AdobeCompressPdf using v c [OF AdobeCompressPdf] adobe_outcome
      by (simp add: scratch_extensions_def adobe_compress_pdf_def split_beta Let_def)
  next
    case AdobeOptimizePdf
    show ?thesis unfolding sp unfolding AdobeOptimizePdf using v adobe_outcome
      by (simp add: scratch_extensions_def adobe_optimize_pdf_def split_beta Let_def)
  next
    case AdobeExtractText
    with assms(2) show ?thesis by simp
  qed
qed

lemma map_of_put_entry: "map_of (put_entry p n xs) q = (if q = p then Some n else map_of xs q)"
  by (induction xs) auto

lemma stat_write_file:
  "write_file p d w = Inr w1 \<Longrightarrow> \<exists>t r. stat w1 p = Some (RegularFile t d r)"
  by (auto simp: write_file_def stat_def map_of_put_entry split: if_splits option.splits node.splits)

lemma extract_outcome_unbound:
  assumes "validate_pdf_file f" and "validate_file_size (file_size f)"
    and "snd (extract_try sv f (fst (create_temp_file ''.pdf'' w)) (snd (create_temp_file ''.pdf'' w))) = None"
  shows "adobe_extract_text sv f w =
      (Inl (UnboundLocalError ''output_path''),
       snd (catch (reraise_or_500 ''Error extracting text with Adobe: '' ''Text extraction failed: '')
              (fst (extract_try sv f (fst (create_temp_file ''.pdf'' w)) (snd (create_temp_file ''.pdf'' w))))))"
  using assms
  by (simp add: adobe_extract_text_def split_beta Let_def try_finally_def finally_cleanup_def)

lemma extract_text_leak:
  assumes "validate_pdf_file f" and "validate_file_size (file_size f)"
    and "save_upload (fst (create_temp_file ''.pdf'' w)) f (snd (create_temp_file ''.pdf'' w)) = Inr w1"
    and "extract_text_with_ocr sv w1 (fst (create_temp_file ''.pdf'' w)) = Inr None
         \<or> extract_text_with_ocr sv w1 (fst (create_temp_file ''.pdf'' w)) = Inr (Some [])"
  shows "adobe_extract_text sv f w = (Inl (UnboundLocalError ''output_path''), w1)
       \<and> (\<exists>t r. stat w1 (fst (create_temp_file ''.pdf'' w)) = Some (RegularFile t (file_body f) r))"
proof -
  let ?c = "create_temp_file ''.pdf'' w"
  have t: "extract_try sv f (fst ?c) (snd ?c)
      = ((Inl (ThrownHTTP 500 ''Adobe text extraction failed. Please try again.''), w1), None)"
    using assms(3,4) by (auto simp: extract_try_def)
  have "adobe_extract_text sv f w = (Inl (UnboundLocalError ''output_path''), w1)"
    using extract_outcome_unbound [OF assms(1,2), where sv = sv and w = w] t
    by (simp add: catch_def reraise_or_500_def)
  moreover have "\<exists>t r. stat w1 (fst ?c) = Some (RegularFile t (file_body f) r)"
    using assms(3) unfolding save_upload_def by (rule stat_write_file)
  ultimately show ?thesis by simp
qed

lemma extract_outcome_bound:
  assumes "validate_pdf_file f" and "validate_file_size (file_size f)"
    and "fst (adobe_extract_text sv f w) = Inr r"
  shows "\<not> (\<exists>t d. stat (snd (adobe_extract_text sv f w)) (path r) = Some (RegularFile t d True))"
proof -
  let ?c = "create_temp_file ''.pdf'' w"
  let ?t = "extract_try sv f (fst ?c) (snd ?c)"
  let ?h = "reraise_or_500 ''Error extracting text with Adobe: '' ''Text extraction failed: ''"
  have H: "adobe_extract_text sv f w = try_finally (catch ?h (fst ?t)) (finally_cleanup (Some (fst ?c)) (snd ?t))"
    using assms(1,2) by (simp add: adobe_extract_text_def split_beta Let_def)
  show ?thesis
  proof (cases "snd ?t")
    case None
    with assms(3) show ?thesis unfolding H
      by (simp add: try_finally_def finally_cleanup_def split: prod.splits)
  next
    case (Some out)
    from assms(3) have "fst (catch ?h (fst ?t)) = Inr r"
      unfolding H Some by (simp add: try_finally_def finally_cleanup_def split: prod.splits)
    then have "fst (fst ?t) = Inr r" by (rule catch_Inr)
    then have "snd ?t = Some (path r)" by (rule extract_try_path)
    with Some have o: "out = path r" by simp
    show ?thesis unfolding H Some o snd_try_finally
      by (rule released_pair) simp
  qed
qed

lemma response_file_released:
  assumes "post sv ep f w = (Inr r, w')"
  shows "\<not> (\<exists>t d. stat w' (path r) = Some (RegularFile t d True))"
proof -
  have n: "\<not> turned_away ep f"
    using post_turned_away [where ep = ep and f = f and sv = sv and w = w] assms by auto
  then have v: "validate_pdf_file (file_upload f)" "validate_file_size (file_size (file_upload f))"
    by (auto simp: turned_away_def split: if_splits)
  show ?thesis
  proof (cases "ep = AdobeExtractText")
    case True
    with assms have "fst (adobe_extract_text sv (file_upload f) w) = Inr r"
      and "w' = snd (adobe_extract_text sv (file_upload f) w)" by simp_all
    with extract_outcome_bound [OF v, where sv = sv and w = w and r = r] show ?thesis by simp
  next
    case False
    from assms have "fst (post sv ep f w) = Inr r" and "w' = snd (post sv ep f w)" by simp_all
    with post_two_path_outcome [OF n False, where sv = sv and w = w] show ?thesis by auto
  qed
qed

section \<open>Two runs in full\<close>

lemma unlock_run:
  "unlock_pdf_legacy demo_services demo_upload ''pw'' demo_world =
     (Inr (FileResponse scratch1 ''unlocked_scan.pdf'' ''application/pdf''),
      demo_world\<lparr>draws := 2, issued := [scratch0, scratch1],
                 log_records := [(INFO, ''Successfully unlocked scan.pdf'')]\<rparr>)"
  using demo_valid
  by (simp add: unlock_pdf_legacy_def demo_world_def create_at_0 create_at_1 Let_def
      try_finally_def catch_def unlock_try_def save_upload_def write_file_def
      library_call_def logger_info_def finally_cleanup_def release_def os_path_exists_def
      stat_def os_remove_def demo_services_def demo_upload_def
      child_scratch0 child_scratch1 scratch_ne)

text \<open>
  Against the claim as first worded (that two requests differing only in user-supplied
  data are issued identical paths): two unlock requests from the fresh state, served
  alike, that differ in the file name only. The one named \<open>scan.txt\<close> is turned away
  and issued no path; the one named \<open>scan.pdf\<close> is issued two.
\<close>

theorem rejected_request_is_issued_nothing:
  "drop (length (issued demo_world))
        (issued (snd (post demo_services UnlockPdf
           (demo_form\<lparr>file_upload := demo_upload\<lparr>filename := ''scan.txt''\<rparr>\<rparr>) demo_world)))
     = []
   \<and> drop (length (issued demo_world))
        (issued (snd (post demo_services UnlockPdf demo_form demo_world)))
     = [''/tmp/tmpk3x9/00000000-0000-0000-0000-000000000000.pdf'',
        ''/tmp/tmpk3x9/00000000-0000-0000-0000-000000000001.pdf'']
   \<and> file_upload demo_form = demo_upload"
proof -
  have n: "\<not> validate_pdf_file (demo_upload\<lparr>filename := ''scan.txt''\<rparr>)"
    by code_simp
  have a: "post demo_services UnlockPdf
        (demo_form\<lparr>file_upload := demo_upload\<lparr>filename := ''scan.txt''\<rparr>\<rparr>) demo_world
      = (Inl invalid_file_type, demo_world)"
    using n by (simp add: unlock_pdf_legacy_def)
  have b: "post demo_services UnlockPdf demo_form demo_world
      = unlock_pdf_legacy demo_services demo_upload ''pw'' demo_world"
    by (simp add: demo_form_def)
  show ?thesis
    unfolding a b unlock_run
    by (simp add: demo_world_def demo_form_def scratch0_def scratch1_def)
qed

text \<open>
  \<^bold>\<open>Claim C2.\<close> The claim asks that the file at the output path still exist when
  the response body is produced from it. A successful unlock request in the fresh
  state returns a \<open>FileResponse\<close> for the second scratch path; the \<open>finally\<close> block
  has removed that file before the handler returns, so the scratch directory is empty
  when the framework comes to send the body, and sending fails.
\<close>

theorem response_file_removed_before_send:
  "fst (unlock_pdf_legacy demo_services demo_upload ''pw'' demo_world)
     = Inr (FileResponse ''/tmp/tmpk3x9/00000000-0000-0000-0000-000000000001.pdf''
              ''unlocked_scan.pdf'' ''application/pdf'')
   \<and> os_path_exists (snd (unlock_pdf_legacy demo_services demo_upload ''pw'' demo_world))
        ''/tmp/tmpk3x9/00000000-0000-0000-0000-000000000001.pdf'' = False
   \<and> files (snd (unlock_pdf_legacy demo_services demo_upload ''pw'' demo_world)) = []
   \<and> send_body (FileResponse ''/tmp/tmpk3x9/00000000-0000-0000-0000-000000000001.pdf''
                   ''unlocked_scan.pdf'' ''application/pdf'')
        (snd (unlock_pdf_legacy demo_services demo_upload ''pw'' demo_world))
     = Inl (OtherError ''File at path /tmp/tmpk3x9/00000000-0000-0000-0000-000000000001.pdf does not exist.'')"
  unfolding unlock_run
  by (simp add: scratch1_def [symmetric] os_path_exists_def stat_def send_body_def demo_world_def)

lemma extract_run:
  "adobe_extract_text no_text_services demo_upload demo_world =
     (Inl (UnboundLocalError ''output_path''),
      demo_world\<lparr>draws := 1, issued := [scratch0],
                 files := [(scratch0, RegularFile 700000000 ''%PDF-scan'' True)]\<rparr>)"
  using demo_valid
  by (simp add: adobe_extract_text_def demo_world_def create_at_0 Let_def
      try_finally_def catch_def extract_try_def save_upload_def write_file_def
      reraise_or_500_def finally_cleanup_def
      no_text_services_def demo_services_def demo_upload_def child_scratch0)

text \<open>
  \<^bold>\<open>Claim C1.\<close> The claim asks that every issued scratch path be released on every
  exit route. A text-extraction request for which the service finds no text leaves
  the handler with \<open>output_path\<close> unassigned; the \<open>finally\<close> block reads that variable
  while building its list, raises \<open>UnboundLocalError\<close> in place of the handler's own
  status 500, and releases nothing: the one path issued still names the uploaded
  file.
\<close>

theorem extract_text_leaves_input_behind:
  "fst (adobe_extract_text no_text_services demo_upload demo_world)
     = Inl (UnboundLocalError ''output_path'')
   \<and> issued (snd (adobe_extract_text no_text_services demo_upload demo_world))
     = [''/tmp/tmpk3x9/00000000-0000-0000-0000-000000000000.pdf'']
   \<and> stat (snd (adobe_extract_text no_text_services demo_upload demo_world))
        ''/tmp/tmpk3x9/00000000-0000-0000-0000-000000000000.pdf''
     = Some (RegularFile 700000000 ''%PDF-scan'' True)"
  unfolding extract_run
  by (simp add: scratch0_def [symmetric] stat_def demo_world_def child_scratch0)

end
